theory Spec2Isabelle
  imports Main "HOL-Library.AList"
begin

section \<open>Data model of the video-call coordinator\<close>

text \<open>
  The coordinator is the class \<open>VideoCallManager\<close> of
  \<open>nexus-backend/utils/videoCallManager.js\<close>. Its two JavaScript \<open>Map\<close>s keep
  insertion order, so they are association lists here: \<open>Map.get\<close> is \<open>map_of\<close>,
  \<open>Map.set\<close> is \<open>AList.update\<close> (replace in place, else append), \<open>Map.delete\<close> is
  \<open>AList.delete\<close> and \<open>Map.size\<close> is \<open>length\<close>. Identifiers (socket ids, room ids,
  meeting ids, user ids) are JavaScript strings; clock readings (\<open>new Date()\<close>) are
  milliseconds as \<open>int\<close> and are supplied by the environment, like the uuid of a chat
  message. A \<open>string\<close> holds the UTF-8 bytes of the JavaScript string.
\<close>

record participant =
  socketId :: string
  userId :: string
  userName :: string
  isOrganizer :: bool
  joinedAt :: int
  audio :: bool
  video :: bool
  isScreenSharing :: bool

text \<open>The reverse-index entry is the spread copy \<open>{ ...participant, roomId }\<close>.\<close>

record peer = participant +
  roomId :: string

definition with_roomId :: "participant \<Rightarrow> string \<Rightarrow> peer" where
  "with_roomId p rid =
     \<lparr>socketId = socketId p, userId = userId p, userName = userName p,
      isOrganizer = isOrganizer p, joinedAt = joinedAt p, audio = audio p,
      video = video p, isScreenSharing = isScreenSharing p, roomId = rid\<rparr>"

record chat_message =
  cm_id :: string
  cm_userId :: string
  cm_userName :: string
  cm_message :: string
  cm_timestamp :: int
  cm_isOrganizer :: bool

record room =
  participants :: "(string \<times> participant) list"
  meetingId :: string
  meetingTitle :: string
  startTime :: int
  isRecording :: bool
  chatMessages :: "chat_message list"

text \<open>
  The Meeting collection (\<open>models/Meeting.js\<close>), restricted to the fields the coordinator
  reads or writes. \<open>status\<close> is the schema's enum; \<open>meeting_notes\<close> is the optional string \<open>notes\<close>, whose
  schema setter trims it.
\<close>

datatype meeting_status = Scheduled | Ongoing | Completed | Cancelled

record meeting =
  title :: string
  organizer :: string
  attendees :: "string list"
  status :: meeting_status
  meeting_notes :: "string option"

text \<open>Entries of the \<open>participantList\<close> sent in \<open>room-joined\<close> (no \<open>joinedAt\<close>).\<close>

record participant_view =
  pv_socketId :: string
  pv_userId :: string
  pv_userName :: string
  pv_isOrganizer :: bool
  pv_audio :: bool
  pv_video :: bool
  pv_isScreenSharing :: bool

text \<open>Events the server emits to clients, one constructor per event name.\<close>

datatype message =
    ErrorMsg string
  | UserJoined string string string bool
  | RoomJoined string string "participant_view list" "chat_message list"
  | Offer string string
  | Answer string string
  | IceCandidate string string
  | ParticipantAudioToggle string bool
  | ParticipantVideoToggle string bool
  | ScreenShareStarted string string
  | ScreenShareStopped string
  | ChatMessage chat_message
  | UserLeft string string
  | CallEnded string string

text \<open>
  The state: the coordinator's two maps, the socket.io server (each connected socket with
  the broadcast groups it has joined; on connection a socket is in the group named by
  its own id), the Meeting collection (keyed by the lower-case hexadecimal form of the
  document's ObjectId) and the ids of the documents of the User collection, which
  \<open>populate\<close> consults.
\<close>

record world =
  vcm_rooms :: "(string \<times> room) list"
  vcm_participants :: "(string \<times> peer) list"
  io_sockets :: "(string \<times> string list) list"
  meetings :: "(string \<times> meeting) list"
  users :: "string list"

type_synonym deliveries = "(string \<times> message) list"

datatype js_error = Error string

text \<open>Outcome of a write to the Meeting collection: it resolves, or rejects with a message.\<close>

datatype db_reply = Acknowledged | Rejected string

section \<open>Library behaviour the handlers rely on\<close>

subsection \<open>JavaScript strings and arrays\<close>

text \<open>
  The white space and line terminators of ECMAScript, as UTF-8: the one-byte characters
  TAB, LF, VT, FF, CR and SP; U+00A0; and the three-byte characters U+1680,
  U+2000 to U+200A, U+2028, U+2029, U+202F, U+205F, U+3000 and U+FEFF.
\<close>

definition is_space1 :: "char \<Rightarrow> bool" where
  "is_space1 c = (c \<in> set [CHR 0x09, CHR 0x0A, CHR 0x0B, CHR 0x0C, CHR 0x0D, CHR 0x20])"

definition is_space2 :: "char \<Rightarrow> char \<Rightarrow> bool" where
  "is_space2 c d = (c = CHR 0xC2 \<and> d = CHR 0xA0)"

definition is_space3 :: "char \<Rightarrow> char \<Rightarrow> char \<Rightarrow> bool" where
  "is_space3 c d e =
     ((c = CHR 0xE1 \<and> d = CHR 0x9A \<and> e = CHR 0x80) \<or>
      (c = CHR 0xE2 \<and> d = CHR 0x80 \<and>
       e \<in> set [CHR 0x80, CHR 0x81, CHR 0x82, CHR 0x83, CHR 0x84, CHR 0x85, CHR 0x86,
                 CHR 0x87, CHR 0x88, CHR 0x89, CHR 0x8A, CHR 0xA8, CHR 0xA9, CHR 0xAF]) \<or>
      (c = CHR 0xE2 \<and> d = CHR 0x81 \<and> e = CHR 0x9F) \<or>
      (c = CHR 0xE3 \<and> d = CHR 0x80 \<and> e = CHR 0x80) \<or>
      (c = CHR 0xEF \<and> d = CHR 0xBB \<and> e = CHR 0xBF))"

fun trim_start :: "string \<Rightarrow> string" where
  "trim_start (c # d # e # s) =
     (if is_space1 c then trim_start (d # e # s)
      else if is_space2 c d then trim_start (e # s)
      else if is_space3 c d e then trim_start s
      else c # d # e # s)"
| "trim_start [c, d] =
     (if is_space1 c then trim_start [d] else if is_space2 c d then [] else [c, d])"
| "trim_start [c] = (if is_space1 c then [] else [c])"
| "trim_start [] = []"

text \<open>The same from the end, on the reversed string (its last byte comes first).\<close>

fun trim_end_reversed :: "string \<Rightarrow> string" where
  "trim_end_reversed (e # d # c # s) =
     (if is_space1 e then trim_end_reversed (d # c # s)
      else if is_space2 d e then trim_end_reversed (c # s)
      else if is_space3 c d e then trim_end_reversed s
      else e # d # c # s)"
| "trim_end_reversed [e, d] =
     (if is_space1 e then trim_end_reversed [d] else if is_space2 d e then [] else [e, d])"
| "trim_end_reversed [e] = (if is_space1 e then [] else [e])"
| "trim_end_reversed [] = []"

text \<open>\<open>String.prototype.trim\<close>.\<close>

definition trim :: "string \<Rightarrow> string" where
  "trim s = rev (trim_end_reversed (rev (trim_start s)))"

text \<open>\<open>xs.slice(-n)\<close>: the last \<open>n\<close> elements, all of them when there are fewer.\<close>

definition slice_last :: "nat \<Rightarrow> 'a list \<Rightarrow> 'a list" where
  "slice_last n xs = drop (length xs - n) xs"

text \<open>The template literal \<open>`meeting_${meetingId}`\<close>.\<close>

definition room_name :: "string \<Rightarrow> string" where
  "room_name mid = ''meeting_'' @ mid"

definition digit_char :: "nat \<Rightarrow> char" where
  "digit_char d = char_of (48 + d)"

text \<open>A number inside a template literal: its decimal digits.\<close>

fun string_of_nat :: "nat \<Rightarrow> string" where
  "string_of_nat n =
     (if n < 10 then [digit_char n] else string_of_nat (n div 10) @ [digit_char (n mod 10)])"

declare string_of_nat.simps [simp del]

subsection \<open>socket.io\<close>

definition connected :: "world \<Rightarrow> string \<Rightarrow> bool" where
  "connected w sid = (map_of (io_sockets w) sid \<noteq> None)"

definition group_members :: "(string \<times> string list) list \<Rightarrow> string \<Rightarrow> string list" where
  "group_members io g = map fst (filter (\<lambda>sg. g \<in> set (snd sg)) io)"

text \<open>\<open>socket.emit(ev)\<close>: to the socket itself.\<close>

definition socket_emit :: "world \<Rightarrow> string \<Rightarrow> message \<Rightarrow> deliveries" where
  "socket_emit w sid msg = (if connected w sid then [(sid, msg)] else [])"

text \<open>\<open>socket.to(g).emit(ev)\<close>: to every socket of group \<open>g\<close> except the sender.\<close>

definition socket_to_emit :: "world \<Rightarrow> string \<Rightarrow> string \<Rightarrow> message \<Rightarrow> deliveries" where
  "socket_to_emit w sid g msg =
     map (\<lambda>t. (t, msg)) (filter (\<lambda>t. t \<noteq> sid) (group_members (io_sockets w) g))"

text \<open>\<open>io.to(g).emit(ev)\<close>: to every socket of group \<open>g\<close>.\<close>

definition io_to_emit :: "world \<Rightarrow> string \<Rightarrow> message \<Rightarrow> deliveries" where
  "io_to_emit w g msg = map (\<lambda>t. (t, msg)) (group_members (io_sockets w) g)"

definition socket_join :: "string \<Rightarrow> string \<Rightarrow> world \<Rightarrow> world" where
  "socket_join sid g w =
     w\<lparr>io_sockets := map (\<lambda>sg. if fst sg = sid then (fst sg, List.insert g (snd sg)) else sg)
                        (io_sockets w)\<rparr>"

definition socket_leave :: "string \<Rightarrow> string \<Rightarrow> world \<Rightarrow> world" where
  "socket_leave sid g w =
     w\<lparr>io_sockets := map (\<lambda>sg. if fst sg = sid then (fst sg, removeAll g (snd sg)) else sg)
                        (io_sockets w)\<rparr>"

text \<open>A new transport session: the socket joins the group of its own id.\<close>

definition socket_connect :: "string \<Rightarrow> world \<Rightarrow> world" where
  "socket_connect sid w =
     (if connected w sid then w else w\<lparr>io_sockets := io_sockets w @ [(sid, [sid])]\<rparr>)"

text \<open>The transport closes: socket.io takes the socket out of every group.\<close>

definition socket_close :: "string \<Rightarrow> world \<Rightarrow> world" where
  "socket_close sid w = w\<lparr>io_sockets := AList.delete sid (io_sockets w)\<rparr>"

subsection \<open>The Meeting collection\<close>

text \<open>
  An id given to the Meeting model is cast to an ObjectId: a string of 24 hexadecimal
  digits, read without regard to case. Any other string makes the query reject with a
  cast error.
\<close>

definition hex_digit :: "char \<Rightarrow> bool" where
  "hex_digit c = (c \<in> set ''0123456789abcdefABCDEF'')"

definition is_object_id :: "string \<Rightarrow> bool" where
  "is_object_id s = (length s = 24 \<and> list_all hex_digit s)"

definition lower_hex :: "char \<Rightarrow> char" where
  "lower_hex c =
     (if c = CHR ''A'' then CHR ''a'' else if c = CHR ''B'' then CHR ''b''
      else if c = CHR ''C'' then CHR ''c'' else if c = CHR ''D'' then CHR ''d''
      else if c = CHR ''E'' then CHR ''e'' else if c = CHR ''F'' then CHR ''f'' else c)"

definition object_id :: "string \<Rightarrow> string" where
  "object_id s = map lower_hex s"

definition cast_error_text :: "string \<Rightarrow> string" where
  "cast_error_text s =
     ''Cast to ObjectId failed for value '' @ [CHR 0x22] @ s @ [CHR 0x22] @
     '' (type string) at path '' @ [CHR 0x22] @ ''_id'' @ [CHR 0x22] @
     '' for model '' @ [CHR 0x22] @ ''Meeting'' @ [CHR 0x22]"

text \<open>\<open>Meeting.findById(id)\<close>: the document, \<open>null\<close>, or the cast error.\<close>

definition findById :: "string \<Rightarrow> world \<Rightarrow> js_error + meeting option" where
  "findById mid w =
     (if is_object_id mid then Inr (map_of (meetings w) (object_id mid))
      else Inl (Error (cast_error_text mid)))"

text \<open>
  \<open>populate\<close> replaces a user id by the User document, or by \<open>null\<close> when there is none;
  reading \<open>_id\<close> of \<open>null\<close> (lines 67 and 68) is a TypeError. \<open>Array.prototype.some\<close>
  visits the attendees in order and stops at the first match.
\<close>

definition populate :: "world \<Rightarrow> string \<Rightarrow> string option" where
  "populate w uid = (if uid \<in> set (users w) then Some uid else None)"

definition null_id_text :: string where
  "null_id_text =
     ''Cannot read properties of null (reading '' @ [CHR 0x27] @ ''_id'' @ [CHR 0x27] @ '')''"

definition is_organizer :: "world \<Rightarrow> meeting \<Rightarrow> string \<Rightarrow> js_error + bool" where
  "is_organizer w m uid =
     (case populate w (organizer m) of
        None \<Rightarrow> Inl (Error null_id_text)
      | Some oid \<Rightarrow> Inr (oid = uid))"

fun some_attendee :: "world \<Rightarrow> string \<Rightarrow> string list \<Rightarrow> js_error + bool" where
  "some_attendee w uid [] = Inr False"
| "some_attendee w uid (a # as) =
     (case populate w a of
        None \<Rightarrow> Inl (Error null_id_text)
      | Some aid \<Rightarrow> if aid = uid then Inr True else some_attendee w uid as)"

text \<open>
  \<open>Meeting.findByIdAndUpdate(id, changes)\<close>: the id is cast; when the write resolves, the
  document with that id, if any, is changed; when it rejects nothing is written.
  Assigning \<open>notes\<close> runs the schema's setter (\<open>trim: true\<close>).
\<close>

definition set_notes :: "string \<Rightarrow> meeting \<Rightarrow> meeting" where
  "set_notes s d = d\<lparr>meeting_notes := Some (trim s)\<rparr>"

definition update_document ::
  "string \<Rightarrow> (meeting \<Rightarrow> meeting) \<Rightarrow> (string \<times> meeting) list \<Rightarrow> (string \<times> meeting) list" where
  "update_document mid change db =
     map (\<lambda>km. if fst km = mid then (fst km, change (snd km)) else km) db"

definition findByIdAndUpdate ::
  "db_reply \<Rightarrow> string \<Rightarrow> (meeting \<Rightarrow> meeting) \<Rightarrow> world \<Rightarrow> js_error + world" where
  "findByIdAndUpdate reply mid change w =
     (if \<not> is_object_id mid then Inl (Error (cast_error_text mid))
      else
        (case reply of
           Rejected e \<Rightarrow> Inl (Error e)
         | Acknowledged \<Rightarrow>
             Inr (w\<lparr>meetings := update_document (object_id mid) change (meetings w)\<rparr>)))"

section \<open>The socket handlers\<close>

text \<open>
  A handler returns the deliveries it caused, as pairs of receiving socket and message,
  and the new state. The two asynchronous handlers suspend at an \<open>await\<close> on a write to
  the Meeting collection, and other listeners run before they resume: each is given in
  two parts, the part that runs up to the \<open>await\<close> and the part that runs once the
  write has settled with the environment's \<open>db_reply\<close>. \<open>handleJoinRoom\<close> and
  \<open>removeParticipant\<close> themselves are the two parts run back to back, which is what
  happens when nothing arrives in between. (The first \<open>await\<close> of \<open>handleJoinRoom\<close>, on
  \<open>findById\<close> at line 59, precedes everything the handler does, so the handler is taken
  to start when that query resolves.)
\<close>

subsection \<open>\<open>handleJoinRoom\<close> (lines 56-143) and its \<open>join-room\<close> listener (lines 24-30)\<close>

definition participant_view_of :: "participant \<Rightarrow> participant_view" where
  "participant_view_of p =
     \<lparr>pv_socketId = socketId p, pv_userId = userId p, pv_userName = userName p,
      pv_isOrganizer = isOrganizer p, pv_audio = audio p, pv_video = video p,
      pv_isScreenSharing = isScreenSharing p\<rparr>"

text \<open>Lines 93-137: register the participant, notify the peers, answer the caller.\<close>

definition register_participant ::
  "int \<Rightarrow> string \<Rightarrow> string \<Rightarrow> string \<Rightarrow> bool \<Rightarrow> string \<Rightarrow> room \<Rightarrow> world
     \<Rightarrow> deliveries \<times> world" where
  "register_participant t_join sid uid uname is_org rid room w =
     (let p = \<lparr>socketId = sid, userId = uid, userName = uname, isOrganizer = is_org,
               joinedAt = t_join, audio = True, video = True, isScreenSharing = False\<rparr>;
          room1 = room\<lparr>participants := AList.update sid p (participants room)\<rparr>;
          w1 = w\<lparr>vcm_rooms := AList.update rid room1 (vcm_rooms w),
                 vcm_participants := AList.update sid (with_roomId p rid) (vcm_participants w)\<rparr>;
          w2 = socket_join sid rid w1;
          participantList = map (\<lambda>kp. participant_view_of (snd kp)) (participants room1)
      in (socket_to_emit w2 sid rid (UserJoined sid uid uname is_org) @
          socket_emit w2 sid
            (RoomJoined rid (meetingTitle room1) participantList
               (slice_last 50 (chatMessages room1))),
          w2))"

text \<open>Lines 78-85: the room object a first join creates.\<close>

definition fresh_room :: "string \<Rightarrow> string \<Rightarrow> int \<Rightarrow> room" where
  "fresh_room mid ttl t_start =
     \<lparr>participants = [], meetingId = mid, meetingTitle = ttl, startTime = t_start,
      isRecording = False, chatMessages = []\<rparr>"

definition undefined_room_text :: string where
  "undefined_room_text =
     ''Cannot read properties of undefined (reading '' @ [CHR 0x27] @ ''participants'' @
     [CHR 0x27] @ '')''"

text \<open>
  Lines 57-88, up to the \<open>await\<close> of the status write: the result is final (a thrown
  error, or the deliveries of a join into an existing room), or the handler is suspended
  having registered a fresh room, and \<open>isOrganizer\<close> is what it carries over.
\<close>

definition join_begin ::
  "int \<Rightarrow> int \<Rightarrow> string \<Rightarrow> string \<Rightarrow> string \<Rightarrow> string \<Rightarrow> world
     \<Rightarrow> ((js_error + deliveries) + bool) \<times> world" where
  "join_begin t_start t_join sid mid uid uname w =
     (case findById mid w of
        Inl e \<Rightarrow> (Inl (Inl e), w)
      | Inr None \<Rightarrow> (Inl (Inl (Error ''Meeting not found'')), w)
      | Inr (Some m) \<Rightarrow>
          (case is_organizer w m uid of
             Inl e \<Rightarrow> (Inl (Inl e), w)
           | Inr is_org \<Rightarrow>
               (case some_attendee w uid (attendees m) of
                  Inl e \<Rightarrow> (Inl (Inl e), w)
                | Inr is_att \<Rightarrow>
                    if \<not> is_org \<and> \<not> is_att
                    then (Inl (Inl (Error ''You are not authorized to join this meeting'')), w)
                    else
                      (case map_of (vcm_rooms w) (room_name mid) of
                         None \<Rightarrow>
                           (Inr is_org,
                            w\<lparr>vcm_rooms :=
                                AList.update (room_name mid) (fresh_room mid (title m) t_start)
                                  (vcm_rooms w)\<rparr>)
                       | Some room \<Rightarrow>
                           (case register_participant t_join sid uid uname is_org
                                   (room_name mid) room w of
                              (out, w2) \<Rightarrow> (Inl (Inr out), w2))))))"

text \<open>Lines 88-137, from the moment the status write has settled.\<close>

definition join_resume ::
  "db_reply \<Rightarrow> int \<Rightarrow> string \<Rightarrow> string \<Rightarrow> string \<Rightarrow> string \<Rightarrow> bool \<Rightarrow> world
     \<Rightarrow> (js_error + deliveries) \<times> world" where
  "join_resume reply t_join sid mid uid uname is_org w =
     (case findByIdAndUpdate reply mid (\<lambda>d. d\<lparr>status := Ongoing\<rparr>) w of
        Inl e \<Rightarrow> (Inl e, w)
      | Inr w1 \<Rightarrow>
          (case map_of (vcm_rooms w1) (room_name mid) of
             None \<Rightarrow> (Inl (Error undefined_room_text), w1)
           | Some room \<Rightarrow>
               (case register_participant t_join sid uid uname is_org (room_name mid) room w1 of
                  (out, w2) \<Rightarrow> (Inr out, w2))))"

definition handleJoinRoom ::
  "db_reply \<Rightarrow> int \<Rightarrow> int \<Rightarrow> string \<Rightarrow> string \<Rightarrow> string \<Rightarrow> string \<Rightarrow> world
     \<Rightarrow> (js_error + deliveries) \<times> world" where
  "handleJoinRoom reply t_start t_join sid mid uid uname w =
     (case join_begin t_start t_join sid mid uid uname w of
        (Inl result, w1) \<Rightarrow> (result, w1)
      | (Inr is_org, w1) \<Rightarrow> join_resume reply t_join sid mid uid uname is_org w1)"

text \<open>The listener: a thrown error is sent to the calling socket as an \<open>error\<close> event.\<close>

definition report :: "string \<Rightarrow> (js_error + deliveries) \<times> world \<Rightarrow> deliveries \<times> world" where
  "report sid result =
     (case result of
        (Inl (Error text), w') \<Rightarrow> (socket_emit w' sid (ErrorMsg text), w')
      | (Inr out, w') \<Rightarrow> (out, w'))"

definition on_join_room ::
  "db_reply \<Rightarrow> int \<Rightarrow> int \<Rightarrow> string \<Rightarrow> string \<Rightarrow> string \<Rightarrow> string \<Rightarrow> world
     \<Rightarrow> deliveries \<times> world" where
  "on_join_room reply t_start t_join sid mid uid uname w =
     report sid (handleJoinRoom reply t_start t_join sid mid uid uname w)"

subsection \<open>Signalling relay (lines 145-166)\<close>

definition handleOffer :: "string \<Rightarrow> string \<Rightarrow> string \<Rightarrow> world \<Rightarrow> deliveries \<times> world" where
  "handleOffer sid targetSocketId offer w =
     (socket_to_emit w sid targetSocketId (Offer sid offer), w)"

definition handleAnswer :: "string \<Rightarrow> string \<Rightarrow> string \<Rightarrow> world \<Rightarrow> deliveries \<times> world" where
  "handleAnswer sid targetSocketId answer w =
     (socket_to_emit w sid targetSocketId (Answer sid answer), w)"

definition handleIceCandidate ::
  "string \<Rightarrow> string \<Rightarrow> string \<Rightarrow> world \<Rightarrow> deliveries \<times> world" where
  "handleIceCandidate sid targetSocketId candidate w =
     (socket_to_emit w sid targetSocketId (IceCandidate sid candidate), w)"

subsection \<open>Media controls and screen sharing (lines 168-241)\<close>

text \<open>
  The four handlers have one body: look the caller up in the reverse index, then its room,
  check \<open>room.participants.has(socket.id)\<close>, write the flag into the room's entry and into
  the reverse-index entry, and notify the other members of the room's group.
\<close>

definition update_media ::
  "string \<Rightarrow> (participant \<Rightarrow> participant) \<Rightarrow> (peer \<Rightarrow> peer) \<Rightarrow> (peer \<Rightarrow> message) \<Rightarrow> world
     \<Rightarrow> deliveries \<times> world" where
  "update_media sid set_room set_index notice w =
     (case map_of (vcm_participants w) sid of
        None \<Rightarrow> ([], w)
      | Some participant \<Rightarrow>
          (case map_of (vcm_rooms w) (roomId participant) of
             None \<Rightarrow> ([], w)
           | Some room \<Rightarrow>
               (case map_of (participants room) sid of
                  None \<Rightarrow> ([], w)
                | Some p \<Rightarrow>
                    let room1 = room\<lparr>participants :=
                                       AList.update sid (set_room p) (participants room)\<rparr>;
                        w1 = w\<lparr>vcm_rooms :=
                                 AList.update (roomId participant) room1 (vcm_rooms w),
                               vcm_participants :=
                                 AList.update sid (set_index participant) (vcm_participants w)\<rparr>
                    in (socket_to_emit w1 sid (roomId participant) (notice participant), w1))))"

definition handleToggleAudio :: "string \<Rightarrow> bool \<Rightarrow> world \<Rightarrow> deliveries \<times> world" where
  "handleToggleAudio sid a w =
     update_media sid (\<lambda>p. p\<lparr>audio := a\<rparr>) (\<lambda>p. p\<lparr>audio := a\<rparr>)
       (\<lambda>p. ParticipantAudioToggle sid a) w"

definition handleToggleVideo :: "string \<Rightarrow> bool \<Rightarrow> world \<Rightarrow> deliveries \<times> world" where
  "handleToggleVideo sid v w =
     update_media sid (\<lambda>p. p\<lparr>video := v\<rparr>) (\<lambda>p. p\<lparr>video := v\<rparr>)
       (\<lambda>p. ParticipantVideoToggle sid v) w"

definition handleStartScreenShare :: "string \<Rightarrow> world \<Rightarrow> deliveries \<times> world" where
  "handleStartScreenShare sid w =
     update_media sid (\<lambda>p. p\<lparr>isScreenSharing := True\<rparr>) (\<lambda>p. p\<lparr>isScreenSharing := True\<rparr>)
       (\<lambda>p. ScreenShareStarted sid (userName p)) w"

definition handleStopScreenShare :: "string \<Rightarrow> world \<Rightarrow> deliveries \<times> world" where
  "handleStopScreenShare sid w =
     update_media sid (\<lambda>p. p\<lparr>isScreenSharing := False\<rparr>) (\<lambda>p. p\<lparr>isScreenSharing := False\<rparr>)
       (\<lambda>p. ScreenShareStopped sid) w"

subsection \<open>\<open>handleChatMessage\<close> (lines 243-270)\<close>

definition handleChatMessage ::
  "string \<Rightarrow> int \<Rightarrow> string \<Rightarrow> string \<Rightarrow> world \<Rightarrow> deliveries \<times> world" where
  "handleChatMessage uuid now sid text w =
     (case map_of (vcm_participants w) sid of
        None \<Rightarrow> ([], w)
      | Some participant \<Rightarrow>
          if trim text = [] then ([], w)
          else
            (case map_of (vcm_rooms w) (roomId participant) of
               None \<Rightarrow> ([], w)
             | Some room \<Rightarrow>
                 let chatMessage =
                       \<lparr>cm_id = uuid, cm_userId = userId participant,
                        cm_userName = userName participant, cm_message = trim text,
                        cm_timestamp = now, cm_isOrganizer = isOrganizer participant\<rparr>;
                     pushed = chatMessages room @ [chatMessage];
                     kept = (if length pushed > 100 then slice_last 100 pushed else pushed);
                     w1 = w\<lparr>vcm_rooms :=
                              AList.update (roomId participant) (room\<lparr>chatMessages := kept\<rparr>)
                                (vcm_rooms w)\<rparr>
                 in (io_to_emit w1 (roomId participant) (ChatMessage chatMessage), w1)))"

subsection \<open>\<open>removeParticipant\<close> (lines 281-317), leave and disconnect (lines 272-279)\<close>

definition completion_note :: "room \<Rightarrow> string" where
  "completion_note room =
     (if length (chatMessages room) > 0
      then ''Meeting completed with '' @ string_of_nat (length (chatMessages room)) @
           '' chat messages''
      else ''Meeting completed'')"

text \<open>
  Lines 282-304, up to the \<open>await\<close> of the teardown write. When the room is left empty
  the handler is suspended, carrying \<open>participant.roomId\<close>, \<open>room.meetingId\<close> and the note
  it has just computed; otherwise it has finished.
\<close>

definition leave_begin ::
  "string \<Rightarrow> world \<Rightarrow> deliveries \<times> (string \<times> string \<times> string) option \<times> world" where
  "leave_begin sid w =
     (case map_of (vcm_participants w) sid of
        None \<Rightarrow> ([], None, w)
      | Some participant \<Rightarrow>
          (case map_of (vcm_rooms w) (roomId participant) of
             None \<Rightarrow> ([], None, w\<lparr>vcm_participants := AList.delete sid (vcm_participants w)\<rparr>)
           | Some room \<Rightarrow>
               let room1 = room\<lparr>participants := AList.delete sid (participants room)\<rparr>;
                   w1 = w\<lparr>vcm_rooms := AList.update (roomId participant) room1 (vcm_rooms w)\<rparr>;
                   out = socket_to_emit w1 sid (roomId participant)
                           (UserLeft sid (userName participant))
               in if length (participants room1) = 0
                  then (out,
                        Some (roomId participant, meetingId room1, completion_note room1), w1)
                  else (out, None,
                        w1\<lparr>vcm_participants := AList.delete sid (vcm_participants w1)\<rparr>)))"

text \<open>
  Lines 299-315, from the moment the teardown write has settled: a rejection is caught
  and logged, then the room and the reverse-index entry are deleted.
\<close>

definition leave_finish ::
  "db_reply \<Rightarrow> string \<Rightarrow> string \<Rightarrow> string \<Rightarrow> string \<Rightarrow> world \<Rightarrow> world" where
  "leave_finish reply sid rid mid note w =
     (let w2 = (case findByIdAndUpdate reply mid
                       (\<lambda>d. set_notes note (d\<lparr>status := Completed\<rparr>)) w of
                  Inl e \<Rightarrow> w
                | Inr w' \<Rightarrow> w');
          w3 = w2\<lparr>vcm_rooms := AList.delete rid (vcm_rooms w2)\<rparr>
      in w3\<lparr>vcm_participants := AList.delete sid (vcm_participants w3)\<rparr>)"

definition removeParticipant :: "db_reply \<Rightarrow> string \<Rightarrow> world \<Rightarrow> deliveries \<times> world" where
  "removeParticipant reply sid w =
     (case leave_begin sid w of
        (out, None, w1) \<Rightarrow> (out, w1)
      | (out, Some (rid, mid, note), w1) \<Rightarrow> (out, leave_finish reply sid rid mid note w1))"

definition handleLeaveRoom :: "db_reply \<Rightarrow> string \<Rightarrow> world \<Rightarrow> deliveries \<times> world" where
  "handleLeaveRoom reply sid w = removeParticipant reply sid w"

definition handleDisconnect :: "db_reply \<Rightarrow> string \<Rightarrow> world \<Rightarrow> deliveries \<times> world" where
  "handleDisconnect reply sid w = removeParticipant reply sid w"

subsection \<open>\<open>getRoomStats\<close> (lines 320-343)\<close>

record participant_summary =
  ps_userName :: string
  ps_joinedAt :: int
  ps_audio :: bool
  ps_video :: bool
  ps_isScreenSharing :: bool

record room_stats =
  rs_roomId :: string
  rs_meetingId :: string
  rs_meetingTitle :: string
  rs_participantCount :: nat
  rs_startTime :: int
  rs_duration :: int
  rs_isRecording :: bool
  rs_participants :: "participant_summary list"

record call_stats =
  totalRooms :: nat
  totalParticipants :: nat
  stats_rooms :: "room_stats list"

definition participant_summary_of :: "participant \<Rightarrow> participant_summary" where
  "participant_summary_of p =
     \<lparr>ps_userName = userName p, ps_joinedAt = joinedAt p, ps_audio = audio p,
      ps_video = video p, ps_isScreenSharing = isScreenSharing p\<rparr>"

definition room_stats_of :: "int \<Rightarrow> string \<times> room \<Rightarrow> room_stats" where
  "room_stats_of now kr =
     \<lparr>rs_roomId = fst kr, rs_meetingId = meetingId (snd kr),
      rs_meetingTitle = meetingTitle (snd kr),
      rs_participantCount = length (participants (snd kr)),
      rs_startTime = startTime (snd kr), rs_duration = now - startTime (snd kr),
      rs_isRecording = isRecording (snd kr),
      rs_participants = map (\<lambda>kp. participant_summary_of (snd kp)) (participants (snd kr))\<rparr>"

definition getRoomStats :: "int \<Rightarrow> world \<Rightarrow> call_stats" where
  "getRoomStats now w =
     \<lparr>totalRooms = length (vcm_rooms w), totalParticipants = length (vcm_participants w),
      stats_rooms = map (room_stats_of now) (vcm_rooms w)\<rparr>"

section \<open>\<open>endVideoCall\<close> (controllers/videoCallController.js, lines 73-125)\<close>

datatype http_response = Response nat string "meeting option"

text \<open>
  A handler suspended at an \<open>await\<close>, with what it carries over and the reply its
  write will get: a join waiting for \<open>findById\<close> (line 59), a join waiting for the status
  write (line 88), and a \<open>removeParticipant\<close> waiting for the teardown write (line 299).
\<close>

datatype pending =
    Finding db_reply int int string string string string
  | Opening db_reply int string string string string bool
  | Tearing db_reply string string string string

text \<open>
  The awaited operation settles and the handler runs on, to its end or to its next
  \<open>await\<close>.
\<close>

fun settle :: "pending \<Rightarrow> world \<Rightarrow> deliveries \<times> pending list \<times> world" where
  "settle (Finding reply t_start t_join sid mid uid uname) w =
     (case join_begin t_start t_join sid mid uid uname w of
        (Inl result, w1) \<Rightarrow> (fst (report sid (result, w1)), [], w1)
      | (Inr is_org, w1) \<Rightarrow> ([], [Opening reply t_join sid mid uid uname is_org], w1))"
| "settle (Opening reply t_join sid mid uid uname is_org) w =
     (case report sid (join_resume reply t_join sid mid uid uname is_org w) of
        (out, w1) \<Rightarrow> (out, [], w1))"
| "settle (Tearing reply sid rid mid note) w =
     ([], [], leave_finish reply sid rid mid note w)"

fun settle_all :: "pending list \<Rightarrow> world \<Rightarrow> deliveries \<times> world" where
  "settle_all [] w = ([], w)"
| "settle_all (k # ks) w =
     (case settle k w of
        (out, new, w1) \<Rightarrow>
          (case settle_all ks w1 of (outs, w2) \<Rightarrow> (out @ outs, w2)))"

text \<open>
  \<open>socket.disconnect()\<close> closes the transport and fires the socket's \<open>disconnect\<close>
  listener, which is \<open>handleDisconnect\<close>.
\<close>

definition socket_disconnect :: "db_reply \<Rightarrow> string \<Rightarrow> world \<Rightarrow> deliveries \<times> world" where
  "socket_disconnect reply sid w = handleDisconnect reply sid (socket_close sid w)"

definition suspended_teardown ::
  "db_reply \<Rightarrow> string \<Rightarrow> (string \<times> string \<times> string) option \<Rightarrow> pending list" where
  "suspended_teardown reply sid k =
     (case k of None \<Rightarrow> [] | Some (rid, mid, note) \<Rightarrow> [Tearing reply sid rid mid note])"

text \<open>
  The \<open>forEach\<close> over the snapshot of the room's participant keys (lines 98-105): each
  socket that is still connected leaves the group and is disconnected, and its
  \<open>disconnect\<close> listener runs up to its \<open>await\<close>. \<open>replies\<close> gives the outcome of the
  write such a listener may issue.
\<close>

fun force_disconnect ::
  "(string \<Rightarrow> db_reply) \<Rightarrow> string \<Rightarrow> string list \<Rightarrow> world
     \<Rightarrow> deliveries \<times> pending list \<times> world" where
  "force_disconnect replies rid [] w = ([], [], w)"
| "force_disconnect replies rid (sid # sids) w =
     (if connected w sid
      then (case leave_begin sid (socket_close sid (socket_leave sid rid w)) of
              (out, k, w1) \<Rightarrow>
                (case force_disconnect replies rid sids w1 of
                   (outs, ks, w2) \<Rightarrow>
                     (out @ outs, suspended_teardown (replies sid) sid k @ ks, w2)))
      else force_disconnect replies rid sids w)"

definition end_of_call_note :: "meeting \<Rightarrow> string \<Rightarrow> string" where
  "end_of_call_note m stamp =
     (case meeting_notes m of None \<Rightarrow> [] | Some n \<Rightarrow> n) @
     [CHR 0x0A] @ ''Call ended by organizer at '' @ stamp"

text \<open>
  Lines 75-115, up to the \<open>await\<close> of \<open>meeting.save()\<close>: an answer (404, 403, or 500 for a
  thrown cast error), or the changed document that is about to be saved. The listeners
  the \<open>forEach\<close> suspended are returned with the state.
\<close>

definition endVideoCall_begin ::
  "(string \<Rightarrow> db_reply) \<Rightarrow> string \<Rightarrow> string \<Rightarrow> string \<Rightarrow> string \<Rightarrow> world
     \<Rightarrow> (http_response + meeting) \<times> deliveries \<times> pending list \<times> world" where
  "endVideoCall_begin replies stamp mid uid uname w =
     (case findById mid w of
        Inl (Error text) \<Rightarrow> (Inl (Response 500 text None), [], [], w)
      | Inr None \<Rightarrow> (Inl (Response 404 ''Meeting not found'' None), [], [], w)
      | Inr (Some m) \<Rightarrow>
          if organizer m \<noteq> uid
          then (Inl (Response 403 ''Only the organizer can end the call'' None), [], [], w)
          else
            let m1 = set_notes (end_of_call_note m stamp) (m\<lparr>status := Completed\<rparr>)
            in (case map_of (vcm_rooms w) (room_name mid) of
                  None \<Rightarrow> (Inr m1, [], [], w)
                | Some room \<Rightarrow>
                    (case force_disconnect replies (room_name mid)
                            (map fst (participants room)) w of
                       (out, ks, w1) \<Rightarrow>
                         (Inr m1,
                          io_to_emit w (room_name mid)
                            (CallEnded ''The call has been ended by the organizer'' uname) @ out,
                          ks,
                          w1\<lparr>vcm_rooms := AList.delete (room_name mid) (vcm_rooms w1)\<rparr>))))"

text \<open>
  Lines 115-120, \<open>meeting.save()\<close> and the answer: the changed paths \<open>status\<close> and \<open>notes\<close>
  are written to the document; a rejection is answered with 500.
\<close>

definition save_meeting :: "db_reply \<Rightarrow> string \<Rightarrow> meeting \<Rightarrow> world \<Rightarrow> http_response \<times> world" where
  "save_meeting reply mid m1 w =
     (case findByIdAndUpdate reply mid
             (\<lambda>d. d\<lparr>status := status m1, meeting_notes := meeting_notes m1\<rparr>) w of
        Inl (Error text) \<Rightarrow> (Response 500 text None, w)
      | Inr w1 \<Rightarrow> (Response 200 ''Video call ended successfully'' (Some m1), w1))"

text \<open>
  The whole request when nothing else arrives meanwhile and the writes land in the order
  they were issued: first those of the suspended disconnect listeners, then the save.
\<close>

definition endVideoCall ::
  "(string \<Rightarrow> db_reply) \<Rightarrow> db_reply \<Rightarrow> string \<Rightarrow> string \<Rightarrow> string \<Rightarrow> string \<Rightarrow> world
     \<Rightarrow> http_response \<times> deliveries \<times> world" where
  "endVideoCall replies save_reply stamp mid uid uname w =
     (case endVideoCall_begin replies stamp mid uid uname w of
        (Inl answer, out, ks, w1) \<Rightarrow> (answer, out, w1)
      | (Inr m1, out, ks, w1) \<Rightarrow>
          (case settle_all ks w1 of
             (outs, w2) \<Rightarrow>
               (case save_meeting save_reply mid m1 w2 of
                  (answer, w3) \<Rightarrow> (answer, out @ outs, w3))))"

section \<open>Runs of the coordinator\<close>

text \<open>
  What reaches the coordinator over its lifetime: connections, the client events wired in
  \<open>initializeSocket\<close> (lines 20-51), and changes other controllers make to the Meeting
  and User collections. A client event carries the environment's inputs to its handler:
  clock readings, the uuid, and the reply its write to the Meeting collection will get.
\<close>

datatype event =
    Connection string
  | Join_room string db_reply int int string string string
  | Offer_from string string string
  | Answer_from string string string
  | Ice_candidate_from string string string
  | Toggle_audio string bool
  | Toggle_video string bool
  | Start_screen_share string
  | Stop_screen_share string
  | Chat_message string string int string
  | Leave_room string db_reply
  | Disconnect string db_reply
  | Meetings_changed "(string \<times> meeting) list"
  | Users_changed "string list"

fun sender :: "event \<Rightarrow> string option" where
  "sender (Connection sid) = None"
| "sender (Join_room sid reply t_start t_join mid uid uname) = Some sid"
| "sender (Offer_from sid target payload) = Some sid"
| "sender (Answer_from sid target payload) = Some sid"
| "sender (Ice_candidate_from sid target payload) = Some sid"
| "sender (Toggle_audio sid a) = Some sid"
| "sender (Toggle_video sid v) = Some sid"
| "sender (Start_screen_share sid) = Some sid"
| "sender (Stop_screen_share sid) = Some sid"
| "sender (Chat_message sid uuid now text) = Some sid"
| "sender (Leave_room sid reply) = Some sid"
| "sender (Disconnect sid reply) = Some sid"
| "sender (Meetings_changed db) = None"
| "sender (Users_changed us) = None"

fun dispatch :: "event \<Rightarrow> world \<Rightarrow> deliveries \<times> world" where
  "dispatch (Connection sid) w = ([], socket_connect sid w)"
| "dispatch (Join_room sid reply t_start t_join mid uid uname) w =
     on_join_room reply t_start t_join sid mid uid uname w"
| "dispatch (Offer_from sid target payload) w = handleOffer sid target payload w"
| "dispatch (Answer_from sid target payload) w = handleAnswer sid target payload w"
| "dispatch (Ice_candidate_from sid target payload) w = handleIceCandidate sid target payload w"
| "dispatch (Toggle_audio sid a) w = handleToggleAudio sid a w"
| "dispatch (Toggle_video sid v) w = handleToggleVideo sid v w"
| "dispatch (Start_screen_share sid) w = handleStartScreenShare sid w"
| "dispatch (Stop_screen_share sid) w = handleStopScreenShare sid w"
| "dispatch (Chat_message sid uuid now text) w = handleChatMessage uuid now sid text w"
| "dispatch (Leave_room sid reply) w = handleLeaveRoom reply sid w"
| "dispatch (Disconnect sid reply) w = socket_disconnect reply sid w"
| "dispatch (Meetings_changed db) w = ([], w\<lparr>meetings := db\<rparr>)"
| "dispatch (Users_changed us) w = ([], w\<lparr>users := us\<rparr>)"

text \<open>Only a connected socket sends events; anything else cannot occur and is skipped.\<close>

definition socket_event :: "event \<Rightarrow> world \<Rightarrow> deliveries \<times> world" where
  "socket_event ev w =
     (case sender ev of
        None \<Rightarrow> dispatch ev w
      | Some sid \<Rightarrow> if connected w sid then dispatch ev w else ([], w))"

text \<open>
  The constructor (lines 7-10): both maps empty; no socket is connected yet, and no user
  is known yet (\<open>Users_changed\<close> brings them in).
\<close>

definition initial_world :: "(string \<times> meeting) list \<Rightarrow> world" where
  "initial_world db =
     \<lparr>vcm_rooms = [], vcm_participants = [], io_sockets = [], meetings = db, users = []\<rparr>"

fun run :: "event list \<Rightarrow> world \<Rightarrow> world" where
  "run [] w = w"
| "run (ev # evs) w = run evs (snd (socket_event ev w))"

text \<open>
  The same events with the handlers interleaved at their \<open>await\<close>s. An event starts its
  handler, which runs up to its first \<open>await\<close> and is then suspended; a suspended handler
  is resumed when the operation it awaits settles, in any order and with any number of
  other events in between.
\<close>

fun dispatch_begin :: "event \<Rightarrow> world \<Rightarrow> deliveries \<times> pending list \<times> world" where
  "dispatch_begin (Join_room sid reply t_start t_join mid uid uname) w =
     ([], [Finding reply t_start t_join sid mid uid uname], w)"
| "dispatch_begin (Leave_room sid reply) w =
     (case leave_begin sid w of (out, k, w1) \<Rightarrow> (out, suspended_teardown reply sid k, w1))"
| "dispatch_begin (Disconnect sid reply) w =
     (case leave_begin sid (socket_close sid w) of
        (out, k, w1) \<Rightarrow> (out, suspended_teardown reply sid k, w1))"
| "dispatch_begin ev w = (case dispatch ev w of (out, w1) \<Rightarrow> (out, [], w1))"

definition socket_event_begin :: "event \<Rightarrow> world \<Rightarrow> deliveries \<times> pending list \<times> world" where
  "socket_event_begin ev w =
     (case sender ev of
        None \<Rightarrow> dispatch_begin ev w
      | Some sid \<Rightarrow> if connected w sid then dispatch_begin ev w else ([], [], w))"

datatype action = Begin event | Settle nat

text \<open>\<open>Settle i\<close> resumes the \<open>i\<close>-th of the suspended handlers, the oldest being number 0.\<close>

fun advance :: "action \<Rightarrow> world \<times> pending list \<Rightarrow> deliveries \<times> world \<times> pending list" where
  "advance (Begin ev) (w, ks) =
     (case socket_event_begin ev w of (out, new, w1) \<Rightarrow> (out, w1, ks @ new))"
| "advance (Settle i) (w, ks) =
     (if i < length ks
      then (case settle (ks ! i) w of
              (out, new, w1) \<Rightarrow> (out, w1, take i ks @ drop (Suc i) ks @ new))
      else ([], w, ks))"

fun schedule :: "action list \<Rightarrow> world \<times> pending list \<Rightarrow> world \<times> pending list" where
  "schedule [] s = s"
| "schedule (a # as) s = schedule as (snd (advance a s))"

text \<open>
  The schedule in which every handler runs to its end before the next event is taken.
\<close>

fun serial :: "event list \<Rightarrow> action list" where
  "serial [] = []"
| "serial (ev # evs) = Begin ev # Settle 0 # Settle 0 # serial evs"

text \<open>
  No socket that is already registered in the reverse index sends another \<open>join-room\<close>.
\<close>

fun fresh_join :: "event \<Rightarrow> world \<Rightarrow> bool" where
  "fresh_join (Join_room sid reply t_start t_join mid uid uname) w =
     (map_of (vcm_participants w) sid = None)"
| "fresh_join ev w = True"

fun no_rejoin :: "event list \<Rightarrow> world \<Rightarrow> bool" where
  "no_rejoin [] w = True"
| "no_rejoin (ev # evs) w = (fresh_join ev w \<and> no_rejoin evs (snd (socket_event ev w)))"

section \<open>Consistency properties of the state\<close>

text \<open>
  Every reverse-index entry names a registered room that holds the socket, with the
  same media flags.
\<close>

definition index_sound :: "world \<Rightarrow> bool" where
  "index_sound w =
     (\<forall>sid e. map_of (vcm_participants w) sid = Some e \<longrightarrow>
        (\<exists>room p. map_of (vcm_rooms w) (roomId e) = Some room \<and>
                  map_of (participants room) sid = Some p \<and>
                  audio p = audio e \<and> video p = video e \<and>
                  isScreenSharing p = isScreenSharing e))"

text \<open>Every participant of a registered room is indexed under that room.\<close>

definition rooms_sound :: "world \<Rightarrow> bool" where
  "rooms_sound w =
     (\<forall>rid room sid. map_of (vcm_rooms w) rid = Some room \<longrightarrow>
        map_of (participants room) sid \<noteq> None \<longrightarrow>
        (\<exists>e. map_of (vcm_participants w) sid = Some e \<and> roomId e = rid))"

text \<open>Every participant of a registered room is connected and in the room's group.\<close>

definition members_live :: "world \<Rightarrow> bool" where
  "members_live w =
     (\<forall>rid room sid. map_of (vcm_rooms w) rid = Some room \<longrightarrow>
        map_of (participants room) sid \<noteq> None \<longrightarrow>
        (\<exists>gs. map_of (io_sockets w) sid = Some gs \<and> rid \<in> set gs))"

text \<open>
  The socket.io server: socket ids are unique, a socket is in the group of its own id,
  and every other group it is in is a meeting room.
\<close>

definition io_sound :: "world \<Rightarrow> bool" where
  "io_sound w =
     (distinct (map fst (io_sockets w)) \<and>
      (\<forall>sid gs. map_of (io_sockets w) sid = Some gs \<longrightarrow>
         sid \<in> set gs \<and> (\<forall>g \<in> set gs. g = sid \<or> g \<in> range room_name)))"


text \<open>Every registered room has at least one participant.\<close>

definition rooms_occupied :: "world \<Rightarrow> bool" where
  "rooms_occupied w = (\<forall>(rid, room) \<in> set (vcm_rooms w). length (participants room) > 0)"

text \<open>Every registered room keeps at most 100 chat messages.\<close>

definition chat_bounded :: "world \<Rightarrow> bool" where
  "chat_bounded w = (\<forall>(rid, room) \<in> set (vcm_rooms w). length (chatMessages room) \<le> 100)"

text \<open>Socket \<open>t\<close> is connected and is in the broadcast group \<open>g\<close>.\<close>

definition in_group :: "world \<Rightarrow> string \<Rightarrow> string \<Rightarrow> bool" where
  "in_group w t g = (case map_of (io_sockets w) t of None \<Rightarrow> False | Some gs \<Rightarrow> g \<in> set gs)"

text \<open>The deliveries \<open>out\<close> carry \<open>msg\<close> once to each socket of \<open>to_whom\<close>, and nothing else.\<close>

definition delivered_once :: "deliveries \<Rightarrow> message \<Rightarrow> string set \<Rightarrow> bool" where
  "delivered_once out msg to_whom = (set out = (\<lambda>t. (t, msg)) ` to_whom \<and> distinct out)"


text \<open>A meeting used in the worked examples below.\<close>

definition demo_meeting :: meeting where
  "demo_meeting =
     \<lparr>title = ''Pitch'', organizer = ''65a1b2c3d4e5f60718293a01'', attendees = [''65a1b2c3d4e5f60718293a02''], status = Scheduled,
      meeting_notes = None\<rparr>"

definition demo_users :: "string list" where
  "demo_users = [''65a1b2c3d4e5f60718293a01'', ''65a1b2c3d4e5f60718293a02'']"

text \<open>A call with one participant and one chat message.\<close>

definition solo_call :: world where
  "solo_call =
     run [Users_changed demo_users, Connection ''a'', Join_room ''a'' Acknowledged 1 2 ''65a1b2c3d4e5f60718293a4b'' ''65a1b2c3d4e5f60718293a01'' ''Ann'',
          Chat_message ''a'' ''c1'' 3 ''anyone?'']
       (initial_world [(''65a1b2c3d4e5f60718293a4b'', demo_meeting)])"


text \<open>A call with two participants, and a third socket connected but in no room.\<close>

definition duo_call :: world where
  "duo_call =
     run [Users_changed demo_users, Connection ''a'', Join_room ''a'' Acknowledged 1 2 ''65a1b2c3d4e5f60718293a4b'' ''65a1b2c3d4e5f60718293a01'' ''Ann'',
          Connection ''b'', Join_room ''b'' Acknowledged 3 4 ''65a1b2c3d4e5f60718293a4b'' ''65a1b2c3d4e5f60718293a02'' ''Bob'',
          Connection ''c'']
       (initial_world [(''65a1b2c3d4e5f60718293a4b'', demo_meeting)])"


text \<open>A call whose chat log is at capacity.\<close>

definition archived_message :: "nat \<Rightarrow> chat_message" where
  "archived_message i =
     \<lparr>cm_id = string_of_nat i, cm_userId = ''65a1b2c3d4e5f60718293a01'', cm_userName = ''Ann'', cm_message = ''note'',
      cm_timestamp = int i, cm_isOrganizer = True\<rparr>"

definition full_log_call :: world where
  "full_log_call =
     \<lparr>vcm_rooms =
        [(''meeting_65a1b2c3d4e5f60718293a4b'',
          \<lparr>participants =
             [(''a'', \<lparr>socketId = ''a'', userId = ''65a1b2c3d4e5f60718293a01'', userName = ''Ann'', isOrganizer = True,
                      joinedAt = 2, audio = True, video = True, isScreenSharing = False\<rparr>)],
           meetingId = ''65a1b2c3d4e5f60718293a4b'', meetingTitle = ''Pitch'', startTime = 1, isRecording = False,
           chatMessages = map archived_message [0..<100]\<rparr>)],
      vcm_participants =
        [(''a'', \<lparr>socketId = ''a'', userId = ''65a1b2c3d4e5f60718293a01'', userName = ''Ann'', isOrganizer = True,
                 joinedAt = 2, audio = True, video = True, isScreenSharing = False,
                 roomId = ''meeting_65a1b2c3d4e5f60718293a4b''\<rparr>)],
      io_sockets = [(''a'', [''meeting_65a1b2c3d4e5f60718293a4b'', ''a''])],
      meetings = [(''65a1b2c3d4e5f60718293a4b'', demo_meeting\<lparr>status := Ongoing\<rparr>)],
      users = demo_users\<rparr>"






section \<open>Lemmas\<close>

lemmas alist_maps = AList.update_conv' AList.delete_conv'




lemma removeParticipant_unfold:
  "removeParticipant reply sid w =
     (case map_of (vcm_participants w) sid of
        None \<Rightarrow> ([], w)
      | Some participant \<Rightarrow>
          (case map_of (vcm_rooms w) (roomId participant) of
             None \<Rightarrow> ([], w\<lparr>vcm_participants := AList.delete sid (vcm_participants w)\<rparr>)
           | Some room \<Rightarrow>
               let room1 = room\<lparr>participants := AList.delete sid (participants room)\<rparr>;
                   w1 = w\<lparr>vcm_rooms := AList.update (roomId participant) room1 (vcm_rooms w)\<rparr>;
                   out = socket_to_emit w1 sid (roomId participant)
                           (UserLeft sid (userName participant));
                   w3 =
                     (if length (participants room1) = 0
                      then
                        let w2 =
                              (case findByIdAndUpdate reply (meetingId room1)
                                      (\<lambda>d. set_notes (completion_note room1)
                                              (d\<lparr>status := Completed\<rparr>))
                                      w1 of
                                 Inl e \<Rightarrow> w1
                               | Inr w' \<Rightarrow> w')
                        in w2\<lparr>vcm_rooms := AList.delete (roomId participant) (vcm_rooms w2)\<rparr>
                      else w1)
               in (out, w3\<lparr>vcm_participants := AList.delete sid (vcm_participants w3)\<rparr>)))"
  by (simp add: removeParticipant_def leave_begin_def leave_finish_def Let_def
      split: option.splits sum.splits)

lemma removeParticipant_rooms:
  "vcm_rooms (snd (removeParticipant reply sid w)) =
     (case map_of (vcm_participants w) sid of
        None \<Rightarrow> vcm_rooms w
      | Some e \<Rightarrow>
          (case map_of (vcm_rooms w) (roomId e) of
             None \<Rightarrow> vcm_rooms w
           | Some room \<Rightarrow>
               if AList.delete sid (participants room) = []
               then AList.delete (roomId e) (vcm_rooms w)
               else AList.update (roomId e)
                      (room\<lparr>participants := AList.delete sid (participants room)\<rparr>)
                      (vcm_rooms w)))"
  by (simp add: removeParticipant_unfold findByIdAndUpdate_def Let_def AList.delete_update_same
      split: option.splits db_reply.splits)

lemma delete_absent: "map_of al k = None \<Longrightarrow> AList.delete k al = al"
  by (simp add: map_of_eq_None_iff)

lemma removeParticipant_index:
  "vcm_participants (snd (removeParticipant reply sid w)) = AList.delete sid (vcm_participants w)"
  by (simp add: removeParticipant_unfold findByIdAndUpdate_def Let_def delete_absent
      split: option.splits db_reply.splits)

lemma removeParticipant_sockets:
  "io_sockets (snd (removeParticipant reply sid w)) = io_sockets w"
  by (simp add: removeParticipant_unfold findByIdAndUpdate_def Let_def
      split: option.splits db_reply.splits)


lemma removeParticipant_rooms_sound:
  assumes inv: "rooms_sound w"
  shows "rooms_sound (snd (removeParticipant reply sid w))"
  unfolding rooms_sound_def
proof (intro allI impI)
  fix rid room' sid'
  assume a: "map_of (vcm_rooms (snd (removeParticipant reply sid w))) rid = Some room'"
    and b: "map_of (participants room') sid' \<noteq> None"
  have old: "\<exists>room0. map_of (vcm_rooms w) rid = Some room0 \<and>
                 map_of (participants room0) sid' \<noteq> None"
    using a b unfolding removeParticipant_rooms
    by (auto simp: alist_maps split: option.splits if_splits)
  then obtain e where e: "map_of (vcm_participants w) sid' = Some e" "roomId e = rid"
    using inv unfolding rooms_sound_def by blast
  have "sid' \<noteq> sid"
    using a b e unfolding removeParticipant_rooms
    by (auto simp: alist_maps split: option.splits if_splits)
  with e show "\<exists>e. map_of (vcm_participants (snd (removeParticipant reply sid w))) sid' = Some e \<and> roomId e = rid"
    by (simp add: removeParticipant_index alist_maps)
qed


lemma update_media_cases:
  obtains (idle) "update_media sid f g notice w = ([], w)"
  | (changed) e room p where
      "map_of (vcm_participants w) sid = Some e"
      "map_of (vcm_rooms w) (roomId e) = Some room"
      "map_of (participants room) sid = Some p"
      "update_media sid f g notice w =
         (socket_to_emit w sid (roomId e) (notice e),
          w\<lparr>vcm_rooms := AList.update (roomId e)
                 (room\<lparr>participants := AList.update sid (f p) (participants room)\<rparr>) (vcm_rooms w),
            vcm_participants := AList.update sid (g e) (vcm_participants w)\<rparr>)"
proof (cases "map_of (vcm_participants w) sid")
  case None
  then show ?thesis using idle by (simp add: update_media_def)
next
  case e: (Some e)
  show ?thesis
  proof (cases "map_of (vcm_rooms w) (roomId e)")
    case None
    with e show ?thesis using idle by (simp add: update_media_def)
  next
    case r: (Some room)
    show ?thesis
    proof (cases "map_of (participants room) sid")
      case None
      with e r show ?thesis using idle by (simp add: update_media_def)
    next
      case (Some p)
      have "update_media sid f g notice w =
         (socket_to_emit w sid (roomId e) (notice e),
          w\<lparr>vcm_rooms := AList.update (roomId e)
                 (room\<lparr>participants := AList.update sid (f p) (participants room)\<rparr>) (vcm_rooms w),
            vcm_participants := AList.update sid (g e) (vcm_participants w)\<rparr>)"
        using e r Some by (simp add: update_media_def Let_def socket_to_emit_def)
      with e r Some show ?thesis by (rule changed)
    qed
  qed
qed


lemma update_media_rooms_sound:
  assumes inv: "rooms_sound w" and rid: "\<And>e. roomId (g e) = roomId e"
  shows "rooms_sound (snd (update_media sid f g notice w))"
proof (cases sid f g notice w rule: update_media_cases)
  case idle
  with inv show ?thesis by simp
next
  case (changed e room p)
  show ?thesis
    unfolding rooms_sound_def changed(4)
  proof (intro allI impI)
    fix rid' room' sid'
    assume a: "map_of (vcm_rooms (snd (socket_to_emit w sid (roomId e) (notice e),
          w\<lparr>vcm_rooms := AList.update (roomId e)
                 (room\<lparr>participants := AList.update sid (f p) (participants room)\<rparr>) (vcm_rooms w),
            vcm_participants := AList.update sid (g e) (vcm_participants w)\<rparr>))) rid' = Some room'"
      and b: "map_of (participants room') sid' \<noteq> None"
    have old: "\<exists>room0. map_of (vcm_rooms w) rid' = Some room0 \<and> map_of (participants room0) sid' \<noteq> None"
      using a b changed(2,3) by (cases "rid' = roomId e"; cases "sid' = sid") (auto simp: alist_maps)
    with inv obtain e' where "map_of (vcm_participants w) sid' = Some e'" "roomId e' = rid'"
      unfolding rooms_sound_def by blast
    with changed(1) show "\<exists>e'. map_of (vcm_participants (snd (socket_to_emit w sid (roomId e) (notice e),
          w\<lparr>vcm_rooms := AList.update (roomId e)
                 (room\<lparr>participants := AList.update sid (f p) (participants room)\<rparr>) (vcm_rooms w),
            vcm_participants := AList.update sid (g e) (vcm_participants w)\<rparr>))) sid' = Some e' \<and> roomId e' = rid'"
      by (cases "sid' = sid") (auto simp: alist_maps rid)
  qed
qed

lemma index_sound_meetings [simp]: "index_sound (w\<lparr>meetings := db\<rparr>) = index_sound w"
  by (simp add: index_sound_def)

lemma index_sound_users [simp]: "index_sound (w\<lparr>users := us\<rparr>) = index_sound w"
  by (simp add: index_sound_def)

lemma rooms_sound_meetings [simp]: "rooms_sound (w\<lparr>meetings := db\<rparr>) = rooms_sound w"
  by (simp add: rooms_sound_def)

lemma rooms_sound_users [simp]: "rooms_sound (w\<lparr>users := us\<rparr>) = rooms_sound w"
  by (simp add: rooms_sound_def)

lemma members_live_meetings [simp]: "members_live (w\<lparr>meetings := db\<rparr>) = members_live w"
  by (simp add: members_live_def)

lemma members_live_users [simp]: "members_live (w\<lparr>users := us\<rparr>) = members_live w"
  by (simp add: members_live_def)

lemma io_sound_meetings [simp]: "io_sound (w\<lparr>meetings := db\<rparr>) = io_sound w"
  by (simp add: io_sound_def)

lemma io_sound_users [simp]: "io_sound (w\<lparr>users := us\<rparr>) = io_sound w"
  by (simp add: io_sound_def)

lemma register_participant_rooms:
  "vcm_rooms (snd (register_participant t_join sid uid uname is_org rid room w)) =
     AList.update rid
       (room\<lparr>participants :=
          AList.update sid
            \<lparr>socketId = sid, userId = uid, userName = uname, isOrganizer = is_org,
             joinedAt = t_join, audio = True, video = True, isScreenSharing = False\<rparr>
            (participants room)\<rparr>)
       (vcm_rooms w)"
  by (simp add: register_participant_def Let_def socket_join_def)

lemma register_participant_index:
  "vcm_participants (snd (register_participant t_join sid uid uname is_org rid room w)) =
     AList.update sid
       (with_roomId
          \<lparr>socketId = sid, userId = uid, userName = uname, isOrganizer = is_org,
           joinedAt = t_join, audio = True, video = True, isScreenSharing = False\<rparr> rid)
       (vcm_participants w)"
  by (simp add: register_participant_def Let_def socket_join_def)

lemma register_participant_sockets:
  "io_sockets (snd (register_participant t_join sid uid uname is_org rid room w)) =
     io_sockets (socket_join sid rid w)"
  by (simp add: register_participant_def Let_def socket_join_def)

lemma register_participant_meetings:
  "meetings (snd (register_participant t_join sid uid uname is_org rid room w)) = meetings w"
  by (simp add: register_participant_def Let_def socket_join_def)


lemma register_participant_rooms_sound:
  assumes inv: "rooms_sound w" and reg: "map_of (vcm_rooms w) rid = Some room"
    and new: "map_of (vcm_participants w) sid = None"
  shows "rooms_sound (snd (register_participant t_join sid uid uname is_org rid room w))"
  unfolding rooms_sound_def
proof (intro allI impI)
  fix rid' room' sid'
  assume a: "map_of (vcm_rooms
               (snd (register_participant t_join sid uid uname is_org rid room w))) rid' = Some room'"
    and b: "map_of (participants room') sid' \<noteq> None"
  show "\<exists>e. map_of (vcm_participants
               (snd (register_participant t_join sid uid uname is_org rid room w))) sid' = Some e \<and>
            roomId e = rid'"
  proof (cases "sid' = sid")
    case True
    have "rid' = rid"
    proof (rule ccontr)
      assume "rid' \<noteq> rid"
      with a have "map_of (vcm_rooms w) rid' = Some room'"
        by (simp add: register_participant_rooms alist_maps)
      with inv b True new show False unfolding rooms_sound_def by fastforce
    qed
    with True show ?thesis
      by (simp add: register_participant_index alist_maps with_roomId_def)
  next
    case False
    have "\<exists>room0. map_of (vcm_rooms w) rid' = Some room0 \<and> map_of (participants room0) sid' \<noteq> None"
      using a b False reg
      by (cases "rid' = rid") (auto simp: register_participant_rooms alist_maps)
    with inv obtain e where "map_of (vcm_participants w) sid' = Some e" "roomId e = rid'"
      unfolding rooms_sound_def by blast
    with False show ?thesis
      by (simp add: register_participant_index alist_maps)
  qed
qed
lemma map_of_socket_join:
  "map_of (io_sockets (socket_join sid g w)) s =
     (if s = sid then map_option (List.insert g) (map_of (io_sockets w) s)
      else map_of (io_sockets w) s)"
proof -
  have "map_of (map (\<lambda>sg. if fst sg = sid then (fst sg, List.insert g (snd sg)) else sg) io) s =
        (if s = sid then map_option (List.insert g) (map_of io s) else map_of io s)" for io
    by (induction io) auto
  then show ?thesis by (simp add: socket_join_def)
qed

lemma keys_socket_join: "map fst (io_sockets (socket_join sid g w)) = map fst (io_sockets w)"
  by (simp add: socket_join_def comp_def if_distrib [of fst] cong: if_cong)

lemma socket_join_io_sound:
  assumes "io_sound w"
  shows "io_sound (socket_join sid (room_name mid) w)"
proof -
  have groups: "sid' \<in> set gs \<and> (\<forall>g \<in> set gs. g = sid' \<or> g \<in> range room_name)"
    if "map_of (io_sockets (socket_join sid (room_name mid) w)) sid' = Some gs" for sid' gs
  proof (cases "sid' = sid")
    case True
    with that obtain gs0 where g0: "map_of (io_sockets w) sid = Some gs0"
      and gs: "gs = List.insert (room_name mid) gs0"
      by (auto simp: map_of_socket_join)
    from assms g0 have "sid \<in> set gs0 \<and> (\<forall>g \<in> set gs0. g = sid \<or> g \<in> range room_name)"
      unfolding io_sound_def by blast
    with gs True show ?thesis by auto
  next
    case False
    with that have "map_of (io_sockets w) sid' = Some gs"
      by (simp add: map_of_socket_join)
    with assms show ?thesis unfolding io_sound_def by blast
  qed
  have "distinct (map fst (io_sockets (socket_join sid (room_name mid) w)))"
    using assms by (simp add: keys_socket_join io_sound_def)
  with groups show ?thesis unfolding io_sound_def by blast
qed

lemma map_of_socket_close:
  "map_of (io_sockets (socket_close sid w)) s = (if s = sid then None else map_of (io_sockets w) s)"
  by (simp add: socket_close_def alist_maps)

lemma socket_close_io_sound:
  assumes "io_sound w"
  shows "io_sound (socket_close sid w)"
proof -
  have "distinct (map fst (io_sockets (socket_close sid w)))"
    using assms by (simp add: socket_close_def io_sound_def AList.distinct_delete)
  moreover have "sid' \<in> set gs \<and> (\<forall>g \<in> set gs. g = sid' \<or> g \<in> range room_name)"
    if "map_of (io_sockets (socket_close sid w)) sid' = Some gs" for sid' gs
  proof -
    from that have "map_of (io_sockets w) sid' = Some gs"
      by (simp add: map_of_socket_close split: if_splits)
    with assms show ?thesis unfolding io_sound_def by blast
  qed
  ultimately show ?thesis unfolding io_sound_def by blast
qed

lemma map_of_socket_connect:
  "map_of (io_sockets (socket_connect sid w)) s =
     (if s = sid \<and> map_of (io_sockets w) sid = None then Some [sid] else map_of (io_sockets w) s)"
  by (auto simp: socket_connect_def connected_def map_add_def split: option.splits)

lemma socket_connect_io_sound:
  assumes "io_sound w"
  shows "io_sound (socket_connect sid w)"
proof -
  have "distinct (map fst (io_sockets (socket_connect sid w)))"
    using assms by (auto simp: socket_connect_def io_sound_def connected_def map_of_eq_None_iff)
  moreover have "sid' \<in> set gs \<and> (\<forall>g \<in> set gs. g = sid' \<or> g \<in> range room_name)"
    if "map_of (io_sockets (socket_connect sid w)) sid' = Some gs" for sid' gs
  proof (cases "sid' = sid \<and> map_of (io_sockets w) sid = None")
    case True
    with that have "gs = [sid]" by (simp add: map_of_socket_connect)
    with True show ?thesis by simp
  next
    case False
    with that have "map_of (io_sockets w) sid' = Some gs"
      by (simp add: map_of_socket_connect split: if_splits)
    with assms show ?thesis unfolding io_sound_def by blast
  qed
  ultimately show ?thesis unfolding io_sound_def by blast
qed
lemma socket_close_fields [simp]:
  "vcm_rooms (socket_close sid w) = vcm_rooms w"
  "vcm_participants (socket_close sid w) = vcm_participants w"
  "meetings (socket_close sid w) = meetings w"
  by (simp_all add: socket_close_def)

lemma socket_connect_fields [simp]:
  "vcm_rooms (socket_connect sid w) = vcm_rooms w"
  "vcm_participants (socket_connect sid w) = vcm_participants w"
  "meetings (socket_connect sid w) = meetings w"
  by (simp_all add: socket_connect_def)

lemma socket_join_fields [simp]:
  "vcm_rooms (socket_join sid g w) = vcm_rooms w"
  "vcm_participants (socket_join sid g w) = vcm_participants w"
  "meetings (socket_join sid g w) = meetings w"
  by (simp_all add: socket_join_def)

lemma socket_leave_fields [simp]:
  "vcm_rooms (socket_leave sid g w) = vcm_rooms w"
  "vcm_participants (socket_leave sid g w) = vcm_participants w"
  "meetings (socket_leave sid g w) = meetings w"
  by (simp_all add: socket_leave_def)

lemma removeParticipant_survivor:
  assumes a: "map_of (vcm_rooms (snd (removeParticipant reply sid w))) rid = Some room'"
    and b: "map_of (participants room') sid' \<noteq> None"
  shows "\<exists>room0. map_of (vcm_rooms w) rid = Some room0 \<and> map_of (participants room0) sid' \<noteq> None"
    and "map_of (vcm_participants w) sid' = Some e \<Longrightarrow> roomId e = rid \<Longrightarrow> sid' \<noteq> sid"
proof -
  show "\<exists>room0. map_of (vcm_rooms w) rid = Some room0 \<and> map_of (participants room0) sid' \<noteq> None"
    using a b unfolding removeParticipant_rooms
    by (auto simp: alist_maps split: option.splits if_splits)
  show "sid' \<noteq> sid" if "map_of (vcm_participants w) sid' = Some e" "roomId e = rid"
    using a b that unfolding removeParticipant_rooms
    by (auto simp: alist_maps split: option.splits if_splits)
qed

lemma removeParticipant_members_live:
  assumes live: "members_live w"
  shows "members_live (snd (removeParticipant reply sid w))"
  unfolding members_live_def
proof (intro allI impI)
  fix rid room' sid'
  assume a: "map_of (vcm_rooms (snd (removeParticipant reply sid w))) rid = Some room'"
    and b: "map_of (participants room') sid' \<noteq> None"
  from removeParticipant_survivor(1) [OF a b] live
  show "\<exists>gs. map_of (io_sockets (snd (removeParticipant reply sid w))) sid' = Some gs \<and> rid \<in> set gs"
    unfolding members_live_def removeParticipant_sockets by blast
qed

lemma disconnect_members_live:
  assumes live: "members_live w" and rs: "rooms_sound w"
  shows "members_live (snd (removeParticipant reply sid (socket_close sid w)))"
  unfolding members_live_def
proof (intro allI impI)
  fix rid room' sid'
  assume a: "map_of (vcm_rooms (snd (removeParticipant reply sid (socket_close sid w)))) rid = Some room'"
    and b: "map_of (participants room') sid' \<noteq> None"
  from removeParticipant_survivor(1) [OF a b]
  obtain room0 where r0: "map_of (vcm_rooms w) rid = Some room0"
    "map_of (participants room0) sid' \<noteq> None" by auto
  with rs obtain e where e: "map_of (vcm_participants w) sid' = Some e" "roomId e = rid"
    unfolding rooms_sound_def by blast
  then have "sid' \<noteq> sid"
    using removeParticipant_survivor(2) [OF a b, of e] by simp
  moreover from live r0 obtain gs where "map_of (io_sockets w) sid' = Some gs" "rid \<in> set gs"
    unfolding members_live_def by blast
  ultimately show "\<exists>gs. map_of (io_sockets (snd (removeParticipant reply sid (socket_close sid w)))) sid' = Some gs \<and> rid \<in> set gs"
    by (simp add: removeParticipant_sockets map_of_socket_close)
qed

lemma removeParticipant_io_sound:
  "io_sound w \<Longrightarrow> io_sound (snd (removeParticipant reply sid w))"
  by (simp add: io_sound_def removeParticipant_sockets)

lemma update_media_sockets: "io_sockets (snd (update_media sid f g notice w)) = io_sockets w"
  by (cases sid f g notice w rule: update_media_cases) simp_all

lemma update_media_members_live:
  assumes live: "members_live w"
  shows "members_live (snd (update_media sid f g notice w))"
proof (cases sid f g notice w rule: update_media_cases)
  case idle
  with live show ?thesis by simp
next
  case (changed e room p)
  show ?thesis
    unfolding members_live_def changed(4)
  proof (intro allI impI)
    fix rid' room' sid'
    assume a: "map_of (vcm_rooms (snd (socket_to_emit w sid (roomId e) (notice e),
          w\<lparr>vcm_rooms := AList.update (roomId e)
                 (room\<lparr>participants := AList.update sid (f p) (participants room)\<rparr>) (vcm_rooms w),
            vcm_participants := AList.update sid (g e) (vcm_participants w)\<rparr>))) rid' = Some room'"
      and b: "map_of (participants room') sid' \<noteq> None"
    have "\<exists>room0. map_of (vcm_rooms w) rid' = Some room0 \<and> map_of (participants room0) sid' \<noteq> None"
      using a b changed(2,3) by (cases "rid' = roomId e"; cases "sid' = sid") (auto simp: alist_maps)
    with live have "\<exists>gs. map_of (io_sockets w) sid' = Some gs \<and> rid' \<in> set gs"
      unfolding members_live_def by blast
    then show "\<exists>gs. map_of (io_sockets (snd (socket_to_emit w sid (roomId e) (notice e),
          w\<lparr>vcm_rooms := AList.update (roomId e)
                 (room\<lparr>participants := AList.update sid (f p) (participants room)\<rparr>) (vcm_rooms w),
            vcm_participants := AList.update sid (g e) (vcm_participants w)\<rparr>))) sid' = Some gs \<and> rid' \<in> set gs"
      by simp
  qed
qed

lemma update_media_io_sound:
  "io_sound w \<Longrightarrow> io_sound (snd (update_media sid f g notice w))"
  by (simp add: io_sound_def update_media_sockets)

lemma register_participant_members_live:
  assumes live: "members_live w" and reg: "map_of (vcm_rooms w) rid = Some room"
    and conn: "connected w sid"
  shows "members_live (snd (register_participant t_join sid uid uname is_org rid room w))"
  unfolding members_live_def
proof (intro allI impI)
  fix rid' room' sid'
  assume a: "map_of (vcm_rooms
               (snd (register_participant t_join sid uid uname is_org rid room w))) rid' = Some room'"
    and b: "map_of (participants room') sid' \<noteq> None"
  show "\<exists>gs. map_of (io_sockets
               (snd (register_participant t_join sid uid uname is_org rid room w))) sid' = Some gs \<and>
             rid' \<in> set gs"
  proof (cases "sid' = sid \<and> rid' = rid")
    case True
    with conn show ?thesis
      by (auto simp: register_participant_sockets map_of_socket_join connected_def)
  next
    case False
    have "\<exists>room0. map_of (vcm_rooms w) rid' = Some room0 \<and> map_of (participants room0) sid' \<noteq> None"
      using a b False reg
      by (cases "rid' = rid") (auto simp: register_participant_rooms alist_maps split: if_splits)
    with live obtain gs where "map_of (io_sockets w) sid' = Some gs" "rid' \<in> set gs"
      unfolding members_live_def by blast
    then show ?thesis
      by (auto simp: register_participant_sockets map_of_socket_join)
  qed
qed

lemma register_participant_io_sound:
  "io_sound w \<Longrightarrow> io_sound (snd (register_participant t_join sid uid uname is_org (room_name mid) room w))"
  using socket_join_io_sound [of w sid mid]
  by (simp add: io_sound_def register_participant_sockets)
lemma handleChatMessage_cases:
  obtains (idle) "handleChatMessage uuid now sid text w = ([], w)"
  | (posted) e room kept where
      "map_of (vcm_participants w) sid = Some e"
      "map_of (vcm_rooms w) (roomId e) = Some room"
      "trim text \<noteq> []"
      "kept = (if length (chatMessages room @
                 [\<lparr>cm_id = uuid, cm_userId = userId e, cm_userName = userName e,
                   cm_message = trim text, cm_timestamp = now,
                   cm_isOrganizer = isOrganizer e\<rparr>]) > 100
               then slice_last 100 (chatMessages room @
                 [\<lparr>cm_id = uuid, cm_userId = userId e, cm_userName = userName e,
                   cm_message = trim text, cm_timestamp = now,
                   cm_isOrganizer = isOrganizer e\<rparr>])
               else chatMessages room @
                 [\<lparr>cm_id = uuid, cm_userId = userId e, cm_userName = userName e,
                   cm_message = trim text, cm_timestamp = now,
                   cm_isOrganizer = isOrganizer e\<rparr>])"
      "handleChatMessage uuid now sid text w =
         (io_to_emit w (roomId e)
            (ChatMessage \<lparr>cm_id = uuid, cm_userId = userId e, cm_userName = userName e,
                          cm_message = trim text, cm_timestamp = now,
                          cm_isOrganizer = isOrganizer e\<rparr>),
          w\<lparr>vcm_rooms := AList.update (roomId e) (room\<lparr>chatMessages := kept\<rparr>) (vcm_rooms w)\<rparr>)"
proof (cases "map_of (vcm_participants w) sid")
  case None
  then show ?thesis using idle by (simp add: handleChatMessage_def)
next
  case e: (Some e)
  show ?thesis
  proof (cases "trim text = []")
    case True
    with e show ?thesis using idle by (simp add: handleChatMessage_def)
  next
    case nonblank: False
    show ?thesis
    proof (cases "map_of (vcm_rooms w) (roomId e)")
      case None
      with e nonblank show ?thesis using idle by (simp add: handleChatMessage_def)
    next
      case (Some room)
      have "handleChatMessage uuid now sid text w =
         (io_to_emit w (roomId e)
            (ChatMessage \<lparr>cm_id = uuid, cm_userId = userId e, cm_userName = userName e,
                          cm_message = trim text, cm_timestamp = now,
                          cm_isOrganizer = isOrganizer e\<rparr>),
          w\<lparr>vcm_rooms := AList.update (roomId e) (room\<lparr>chatMessages :=
              (if length (chatMessages room @
                 [\<lparr>cm_id = uuid, cm_userId = userId e, cm_userName = userName e,
                   cm_message = trim text, cm_timestamp = now,
                   cm_isOrganizer = isOrganizer e\<rparr>]) > 100
               then slice_last 100 (chatMessages room @
                 [\<lparr>cm_id = uuid, cm_userId = userId e, cm_userName = userName e,
                   cm_message = trim text, cm_timestamp = now,
                   cm_isOrganizer = isOrganizer e\<rparr>])
               else chatMessages room @
                 [\<lparr>cm_id = uuid, cm_userId = userId e, cm_userName = userName e,
                   cm_message = trim text, cm_timestamp = now,
                   cm_isOrganizer = isOrganizer e\<rparr>])\<rparr>) (vcm_rooms w)\<rparr>)"
        using e nonblank Some by (simp add: handleChatMessage_def Let_def io_to_emit_def)
      with e Some nonblank show ?thesis using posted by blast
    qed
  qed
qed

lemma relabel_room_lookup:
  assumes "map_of (vcm_rooms w) rid = Some room" "participants room1 = participants room"
  shows "(\<exists>r. map_of (AList.update rid room1 (vcm_rooms w)) rid' = Some r \<and>
              map_of (participants r) sid = x) =
         (\<exists>r. map_of (vcm_rooms w) rid' = Some r \<and> map_of (participants r) sid = x)"
  using assms by (cases "rid' = rid") (simp_all add: alist_maps)


lemma relabel_room_old:
  assumes reg: "map_of (vcm_rooms w) rid = Some room" and same: "participants room1 = participants room"
    and a: "map_of (AList.update rid room1 (vcm_rooms w)) rid' = Some room'"
    and b: "map_of (participants room') sid \<noteq> None"
  shows "\<exists>room0. map_of (vcm_rooms w) rid' = Some room0 \<and> map_of (participants room0) sid \<noteq> None"
  using assms by (cases "rid' = rid") (auto simp: alist_maps)

lemma relabel_room_rooms_sound:
  assumes reg: "map_of (vcm_rooms w) rid = Some room" and same: "participants room1 = participants room"
    and inv: "rooms_sound w"
  shows "rooms_sound (w\<lparr>vcm_rooms := AList.update rid room1 (vcm_rooms w)\<rparr>)"
  unfolding rooms_sound_def
proof (intro allI impI)
  fix rid' room' sid
  assume "map_of (vcm_rooms (w\<lparr>vcm_rooms := AList.update rid room1 (vcm_rooms w)\<rparr>)) rid' = Some room'"
    and b: "map_of (participants room') sid \<noteq> None"
  then have "map_of (AList.update rid room1 (vcm_rooms w)) rid' = Some room'" by simp
  from relabel_room_old [OF reg same this b] inv
  show "\<exists>e. map_of (vcm_participants (w\<lparr>vcm_rooms := AList.update rid room1 (vcm_rooms w)\<rparr>)) sid = Some e \<and> roomId e = rid'"
    unfolding rooms_sound_def by (simp, blast)
qed

lemma relabel_room_members_live:
  assumes reg: "map_of (vcm_rooms w) rid = Some room" and same: "participants room1 = participants room"
    and inv: "members_live w"
  shows "members_live (w\<lparr>vcm_rooms := AList.update rid room1 (vcm_rooms w)\<rparr>)"
  unfolding members_live_def
proof (intro allI impI)
  fix rid' room' sid
  assume "map_of (vcm_rooms (w\<lparr>vcm_rooms := AList.update rid room1 (vcm_rooms w)\<rparr>)) rid' = Some room'"
    and b: "map_of (participants room') sid \<noteq> None"
  then have "map_of (AList.update rid room1 (vcm_rooms w)) rid' = Some room'" by simp
  from relabel_room_old [OF reg same this b] inv
  show "\<exists>gs. map_of (io_sockets (w\<lparr>vcm_rooms := AList.update rid room1 (vcm_rooms w)\<rparr>)) sid = Some gs \<and> rid' \<in> set gs"
    unfolding members_live_def by (simp, blast)
qed
lemma handleChatMessage_sockets: "io_sockets (snd (handleChatMessage uuid now sid text w)) = io_sockets w"
  by (cases uuid now sid "text" w rule: handleChatMessage_cases) simp_all

lemma handleChatMessage_index:
  "vcm_participants (snd (handleChatMessage uuid now sid text w)) = vcm_participants w"
  by (cases uuid now sid "text" w rule: handleChatMessage_cases) simp_all


lemma handleChatMessage_rooms_sound:
  "rooms_sound w \<Longrightarrow> rooms_sound (snd (handleChatMessage uuid now sid text w))"
  by (cases uuid now sid "text" w rule: handleChatMessage_cases)
     (simp_all add: relabel_room_rooms_sound)

lemma handleChatMessage_members_live:
  "members_live w \<Longrightarrow> members_live (snd (handleChatMessage uuid now sid text w))"
  by (cases uuid now sid "text" w rule: handleChatMessage_cases)
     (simp_all add: relabel_room_members_live)

lemma handleChatMessage_io_sound:
  "io_sound w \<Longrightarrow> io_sound (snd (handleChatMessage uuid now sid text w))"
  by (simp add: io_sound_def handleChatMessage_sockets)


lemma open_room_old:
  assumes a: "map_of (AList.update rid (fresh_room mid ttl t) (vcm_rooms w)) rid' = Some room'"
    and b: "map_of (participants room') sid \<noteq> None"
  shows "map_of (vcm_rooms w) rid' = Some room'"
  using assms by (cases "rid' = rid") (auto simp: alist_maps fresh_room_def)

lemma open_room_rooms_sound:
  assumes inv: "rooms_sound w"
  shows "rooms_sound (w\<lparr>vcm_rooms := AList.update rid (fresh_room mid ttl t) (vcm_rooms w)\<rparr>)"
  unfolding rooms_sound_def
proof (intro allI impI)
  fix rid' room' sid
  assume "map_of (vcm_rooms (w\<lparr>vcm_rooms := AList.update rid (fresh_room mid ttl t) (vcm_rooms w)\<rparr>)) rid' = Some room'"
    and b: "map_of (participants room') sid \<noteq> None"
  then have "map_of (AList.update rid (fresh_room mid ttl t) (vcm_rooms w)) rid' = Some room'" by simp
  from open_room_old [OF this b] b inv
  show "\<exists>e. map_of (vcm_participants (w\<lparr>vcm_rooms := AList.update rid (fresh_room mid ttl t) (vcm_rooms w)\<rparr>)) sid = Some e \<and> roomId e = rid'"
    unfolding rooms_sound_def by (simp; blast)
qed

lemma open_room_members_live:
  assumes inv: "members_live w"
  shows "members_live (w\<lparr>vcm_rooms := AList.update rid (fresh_room mid ttl t) (vcm_rooms w)\<rparr>)"
  unfolding members_live_def
proof (intro allI impI)
  fix rid' room' sid
  assume "map_of (vcm_rooms (w\<lparr>vcm_rooms := AList.update rid (fresh_room mid ttl t) (vcm_rooms w)\<rparr>)) rid' = Some room'"
    and b: "map_of (participants room') sid \<noteq> None"
  then have "map_of (AList.update rid (fresh_room mid ttl t) (vcm_rooms w)) rid' = Some room'" by simp
  from open_room_old [OF this b] b inv
  show "\<exists>gs. map_of (io_sockets (w\<lparr>vcm_rooms := AList.update rid (fresh_room mid ttl t) (vcm_rooms w)\<rparr>)) sid = Some gs \<and> rid' \<in> set gs"
    unfolding members_live_def by (simp; blast)
qed

lemma join_begin_cases:
  obtains (failed) e where "join_begin t_start t_join sid mid uid uname w = (Inl (Inl e), w)"
  | (suspended) m is_org where "findById mid w = Inr (Some m)"
      "is_organizer w m uid = Inr is_org"
      "map_of (vcm_rooms w) (room_name mid) = None"
      "join_begin t_start t_join sid mid uid uname w =
         (Inr is_org,
          w\<lparr>vcm_rooms := AList.update (room_name mid) (fresh_room mid (title m) t_start)
                            (vcm_rooms w)\<rparr>)"
  | (existing) m room is_org where "findById mid w = Inr (Some m)"
      "is_organizer w m uid = Inr is_org"
      "map_of (vcm_rooms w) (room_name mid) = Some room"
      "join_begin t_start t_join sid mid uid uname w =
         (Inl (Inr (fst (register_participant t_join sid uid uname is_org (room_name mid)
                 room w))),
          snd (register_participant t_join sid uid uname is_org (room_name mid) room w))"
proof (cases "findById mid w")
  case (Inl e)
  then have "join_begin t_start t_join sid mid uid uname w = (Inl (Inl e), w)"
    by (simp add: join_begin_def)
  then show ?thesis by (rule failed)
next
  case found: (Inr found)
  show ?thesis
  proof (cases found)
    case None
    with found
    have "join_begin t_start t_join sid mid uid uname w =
            (Inl (Inl (Error ''Meeting not found'')), w)"
      by (simp add: join_begin_def)
    then show ?thesis by (rule failed)
  next
    case (Some m)
    with found have m: "findById mid w = Inr (Some m)" by simp
    show ?thesis
    proof (cases "is_organizer w m uid")
      case (Inl e)
      with m have "join_begin t_start t_join sid mid uid uname w = (Inl (Inl e), w)"
        by (simp add: join_begin_def)
      then show ?thesis by (rule failed)
    next
      case org: (Inr is_org)
      show ?thesis
      proof (cases "some_attendee w uid (attendees m)")
        case (Inl e)
        with m org have "join_begin t_start t_join sid mid uid uname w = (Inl (Inl e), w)"
          by (simp add: join_begin_def)
        then show ?thesis by (rule failed)
      next
        case att: (Inr is_att)
        show ?thesis
        proof (cases "\<not> is_org \<and> \<not> is_att")
          case True
          with m org att
          have "join_begin t_start t_join sid mid uid uname w =
                  (Inl (Inl (Error ''You are not authorized to join this meeting'')), w)"
            by (simp add: join_begin_def)
          then show ?thesis by (rule failed)
        next
          case auth: False
          show ?thesis
          proof (cases "map_of (vcm_rooms w) (room_name mid)")
            case None
            with m org att auth
            have "join_begin t_start t_join sid mid uid uname w =
                    (Inr is_org,
                     w\<lparr>vcm_rooms := AList.update (room_name mid)
                                       (fresh_room mid (title m) t_start) (vcm_rooms w)\<rparr>)"
              by (simp add: join_begin_def)
            with m org None show ?thesis by (rule suspended)
          next
            case (Some room)
            with m org att auth
            have "join_begin t_start t_join sid mid uid uname w =
                    (Inl (Inr (fst (register_participant t_join sid uid uname is_org
                                      (room_name mid) room w))),
                     snd (register_participant t_join sid uid uname is_org (room_name mid)
                            room w))"
              by (simp add: join_begin_def split: prod.splits)
            with m org Some show ?thesis by (rule existing)
          qed
        qed
      qed
    qed
  qed
qed

lemma findById_object_id: "findById mid w = Inr found \<Longrightarrow> is_object_id mid"
  by (simp add: findById_def split: if_splits)

lemma join_resume_cases:
  obtains (write_failed) e where
      "reply \<noteq> Acknowledged \<or> \<not> is_object_id mid"
      "join_resume reply t_join sid mid uid uname is_org w = (Inl e, w)"
  | (room_gone) "reply = Acknowledged" "is_object_id mid"
      "map_of (vcm_rooms w) (room_name mid) = None"
      "join_resume reply t_join sid mid uid uname is_org w =
         (Inl (Error undefined_room_text),
          w\<lparr>meetings := update_document (object_id mid) (\<lambda>d. d\<lparr>status := Ongoing\<rparr>)
                           (meetings w)\<rparr>)"
  | (registered) room where "reply = Acknowledged" "is_object_id mid"
      "map_of (vcm_rooms w) (room_name mid) = Some room"
      "join_resume reply t_join sid mid uid uname is_org w =
         (Inr (fst (register_participant t_join sid uid uname is_org (room_name mid) room
                 (w\<lparr>meetings := update_document (object_id mid) (\<lambda>d. d\<lparr>status := Ongoing\<rparr>)
                                  (meetings w)\<rparr>))),
          snd (register_participant t_join sid uid uname is_org (room_name mid) room
                 (w\<lparr>meetings := update_document (object_id mid) (\<lambda>d. d\<lparr>status := Ongoing\<rparr>)
                                  (meetings w)\<rparr>)))"
proof (cases "reply = Acknowledged \<and> is_object_id mid")
  case False
  then have "\<exists>e. join_resume reply t_join sid mid uid uname is_org w = (Inl e, w)"
    by (cases reply) (auto simp: join_resume_def findByIdAndUpdate_def)
  with False show ?thesis using write_failed by blast
next
  case ok: True
  show ?thesis
  proof (cases "map_of (vcm_rooms w) (room_name mid)")
    case None
    with ok have "join_resume reply t_join sid mid uid uname is_org w =
         (Inl (Error undefined_room_text),
          w\<lparr>meetings := update_document (object_id mid) (\<lambda>d. d\<lparr>status := Ongoing\<rparr>)
                           (meetings w)\<rparr>)"
      by (simp add: join_resume_def findByIdAndUpdate_def)
    with ok None show ?thesis using room_gone by blast
  next
    case (Some room)
    with ok have "join_resume reply t_join sid mid uid uname is_org w =
         (Inr (fst (register_participant t_join sid uid uname is_org (room_name mid) room
                 (w\<lparr>meetings := update_document (object_id mid) (\<lambda>d. d\<lparr>status := Ongoing\<rparr>)
                                  (meetings w)\<rparr>))),
          snd (register_participant t_join sid uid uname is_org (room_name mid) room
                 (w\<lparr>meetings := update_document (object_id mid) (\<lambda>d. d\<lparr>status := Ongoing\<rparr>)
                                  (meetings w)\<rparr>)))"
      by (simp add: join_resume_def findByIdAndUpdate_def split: prod.splits)
    with ok Some show ?thesis using registered by blast
  qed
qed

lemma handleJoinRoom_cases:
  obtains (failed) e where
      "handleJoinRoom reply t_start t_join sid mid uid uname w = (Inl e, w)"
  | (stranded) m reason where "findById mid w = Inr (Some m)"
      "is_object_id mid"
      "map_of (vcm_rooms w) (room_name mid) = None" "reply = Rejected reason"
      "handleJoinRoom reply t_start t_join sid mid uid uname w =
         (Inl (Error reason),
          w\<lparr>vcm_rooms := AList.update (room_name mid) (fresh_room mid (title m) t_start)
                            (vcm_rooms w)\<rparr>)"
  | (opened) m is_org where "findById mid w = Inr (Some m)"
      "is_organizer w m uid = Inr is_org"
      "map_of (vcm_rooms w) (room_name mid) = None" "reply = Acknowledged"
      "handleJoinRoom reply t_start t_join sid mid uid uname w =
         (Inr (fst (register_participant t_join sid uid uname is_org (room_name mid)
                 (fresh_room mid (title m) t_start)
                 (w\<lparr>vcm_rooms := AList.update (room_name mid) (fresh_room mid (title m) t_start)
                                   (vcm_rooms w),
                    meetings := update_document (object_id mid) (\<lambda>d. d\<lparr>status := Ongoing\<rparr>) (meetings w)\<rparr>))),
          snd (register_participant t_join sid uid uname is_org (room_name mid)
                 (fresh_room mid (title m) t_start)
                 (w\<lparr>vcm_rooms := AList.update (room_name mid) (fresh_room mid (title m) t_start)
                                   (vcm_rooms w),
                    meetings := update_document (object_id mid) (\<lambda>d. d\<lparr>status := Ongoing\<rparr>) (meetings w)\<rparr>)))"
  | (existing) m room is_org where "findById mid w = Inr (Some m)"
      "is_organizer w m uid = Inr is_org"
      "map_of (vcm_rooms w) (room_name mid) = Some room"
      "handleJoinRoom reply t_start t_join sid mid uid uname w =
         (Inr (fst (register_participant t_join sid uid uname is_org (room_name mid)
                 room w)),
          snd (register_participant t_join sid uid uname is_org (room_name mid)
                 room w))"
proof (cases t_start t_join sid mid uid uname w rule: join_begin_cases)
  case (failed e)
  then have "handleJoinRoom reply t_start t_join sid mid uid uname w = (Inl e, w)"
    by (simp add: handleJoinRoom_def)
  then show ?thesis by (rule that(1))
next
  case (existing m room is_org)
  then have "handleJoinRoom reply t_start t_join sid mid uid uname w =
         (Inr (fst (register_participant t_join sid uid uname is_org (room_name mid)
                 room w)),
          snd (register_participant t_join sid uid uname is_org (room_name mid)
                 room w))"
    by (simp add: handleJoinRoom_def)
  with existing(1,2,3) show ?thesis by (rule that(4))
next
  case (suspended m is_org)
  from suspended(1) have oid: "is_object_id mid" by (rule findById_object_id)
  let ?w1 = "w\<lparr>vcm_rooms := AList.update (room_name mid) (fresh_room mid (title m) t_start)
                            (vcm_rooms w)\<rparr>"
  have h: "handleJoinRoom reply t_start t_join sid mid uid uname w =
             join_resume reply t_join sid mid uid uname is_org ?w1"
    using suspended(4) by (simp add: handleJoinRoom_def)
  show ?thesis
  proof (cases reply)
    case Acknowledged
    have "handleJoinRoom reply t_start t_join sid mid uid uname w =
         (Inr (fst (register_participant t_join sid uid uname is_org (room_name mid)
                 (fresh_room mid (title m) t_start)
                 (w\<lparr>vcm_rooms := AList.update (room_name mid) (fresh_room mid (title m) t_start)
                                   (vcm_rooms w),
                    meetings := update_document (object_id mid) (\<lambda>d. d\<lparr>status := Ongoing\<rparr>) (meetings w)\<rparr>))),
          snd (register_participant t_join sid uid uname is_org (room_name mid)
                 (fresh_room mid (title m) t_start)
                 (w\<lparr>vcm_rooms := AList.update (room_name mid) (fresh_room mid (title m) t_start)
                                   (vcm_rooms w),
                    meetings := update_document (object_id mid) (\<lambda>d. d\<lparr>status := Ongoing\<rparr>) (meetings w)\<rparr>)))"
      unfolding h using Acknowledged oid
      by (simp add: join_resume_def findByIdAndUpdate_def alist_maps split: prod.splits)
    with suspended(1,2,3) Acknowledged show ?thesis by (rule that(3))
  next
    case (Rejected reason)
    have "handleJoinRoom reply t_start t_join sid mid uid uname w = (Inl (Error reason), ?w1)"
      unfolding h using Rejected oid by (simp add: join_resume_def findByIdAndUpdate_def)
    with suspended(1) oid suspended(3) Rejected show ?thesis by (rule that(2))
  qed
qed
lemma on_join_room_state:
  "snd (on_join_room reply t_start t_join sid mid uid uname w) =
   snd (handleJoinRoom reply t_start t_join sid mid uid uname w)"
  by (simp add: on_join_room_def report_def split: prod.splits sum.splits js_error.splits)


lemma handleJoinRoom_rooms_sound:
  assumes inv: "rooms_sound w" and new: "map_of (vcm_participants w) sid = None"
  shows "rooms_sound (snd (handleJoinRoom reply t_start t_join sid mid uid uname w))"
proof (cases reply t_start t_join sid mid uid uname w rule: handleJoinRoom_cases)
  case (failed e)
  with inv show ?thesis by simp
next
  case (stranded m reason)
  with inv show ?thesis by (simp add: open_room_rooms_sound)
next
  case (opened m is_org)
  have "rooms_sound (w\<lparr>vcm_rooms := AList.update (room_name mid) (fresh_room mid (title m) t_start)
                                   (vcm_rooms w),
                    meetings := update_document (object_id mid) (\<lambda>d. d\<lparr>status := Ongoing\<rparr>) (meetings w)\<rparr>)"
    using inv by (simp add: open_room_rooms_sound)
  then show ?thesis
    unfolding opened(5) using new by (simp add: register_participant_rooms_sound alist_maps)
next
  case (existing m room is_org)
  with inv new show ?thesis by (simp add: register_participant_rooms_sound)
qed

lemma handleJoinRoom_members_live:
  assumes inv: "members_live w" and conn: "connected w sid"
  shows "members_live (snd (handleJoinRoom reply t_start t_join sid mid uid uname w))"
proof (cases reply t_start t_join sid mid uid uname w rule: handleJoinRoom_cases)
  case (failed e)
  with inv show ?thesis by simp
next
  case (stranded m reason)
  with inv show ?thesis by (simp add: open_room_members_live)
next
  case (opened m is_org)
  have "members_live (w\<lparr>vcm_rooms := AList.update (room_name mid) (fresh_room mid (title m) t_start)
                                   (vcm_rooms w),
                    meetings := update_document (object_id mid) (\<lambda>d. d\<lparr>status := Ongoing\<rparr>) (meetings w)\<rparr>)"
    using inv by (simp add: open_room_members_live)
  then show ?thesis
    unfolding opened(5) using conn
    by (simp add: register_participant_members_live alist_maps connected_def)
next
  case (existing m room is_org)
  with inv conn show ?thesis by (simp add: register_participant_members_live)
qed

lemma handleJoinRoom_io_sound:
  assumes inv: "io_sound w"
  shows "io_sound (snd (handleJoinRoom reply t_start t_join sid mid uid uname w))"
proof (cases reply t_start t_join sid mid uid uname w rule: handleJoinRoom_cases)
  case (failed e)
  with inv show ?thesis by simp
next
  case (stranded m reason)
  with inv show ?thesis by (simp add: io_sound_def)
next
  case (opened m is_org)
  have "io_sound (w\<lparr>vcm_rooms := AList.update (room_name mid) (fresh_room mid (title m) t_start)
                                   (vcm_rooms w),
                    meetings := update_document (object_id mid) (\<lambda>d. d\<lparr>status := Ongoing\<rparr>) (meetings w)\<rparr>)"
    using inv by (simp add: io_sound_def)
  then show ?thesis
    unfolding opened(5) by (simp add: register_participant_io_sound)
next
  case (existing m room is_org)
  with inv show ?thesis by (simp add: register_participant_io_sound)
qed

lemma relay_state [simp]:
  "snd (handleOffer sid target payload w) = w"
  "snd (handleAnswer sid target payload w) = w"
  "snd (handleIceCandidate sid target payload w) = w"
  by (simp_all add: handleOffer_def handleAnswer_def handleIceCandidate_def)

lemmas media_handlers =
  handleToggleAudio_def handleToggleVideo_def handleStartScreenShare_def
  handleStopScreenShare_def

lemma dispatch_io_sound:
  assumes inv: "io_sound w"
  shows "io_sound (snd (dispatch ev w))"
proof (cases ev)
  case (Connection sid)
  with inv show ?thesis by (simp add: socket_connect_io_sound)
next
  case (Join_room sid reply t_start t_join mid uid uname)
  with inv show ?thesis by (simp add: on_join_room_state handleJoinRoom_io_sound)
next
  case (Leave_room sid reply)
  with inv show ?thesis by (simp add: handleLeaveRoom_def removeParticipant_io_sound)
next
  case (Disconnect sid reply)
  with inv show ?thesis
    by (simp add: socket_disconnect_def handleDisconnect_def removeParticipant_io_sound
        socket_close_io_sound)
next
  case (Chat_message sid uuid now body)
  with inv show ?thesis by (simp add: handleChatMessage_io_sound)
next
  case (Meetings_changed db)
  with inv show ?thesis by simp
qed (use inv in \<open>simp_all add: media_handlers update_media_io_sound\<close>)

lemma dispatch_rooms_sound:
  assumes inv: "rooms_sound w" and fresh: "fresh_join ev w"
  shows "rooms_sound (snd (dispatch ev w))"
proof (cases ev)
  case (Connection sid)
  with inv show ?thesis by (simp add: rooms_sound_def)
next
  case (Join_room sid reply t_start t_join mid uid uname)
  with inv fresh show ?thesis by (simp add: on_join_room_state handleJoinRoom_rooms_sound)
next
  case (Leave_room sid reply)
  with inv show ?thesis by (simp add: handleLeaveRoom_def removeParticipant_rooms_sound)
next
  case (Disconnect sid reply)
  have "rooms_sound (socket_close sid w)" using inv by (simp add: rooms_sound_def)
  with Disconnect show ?thesis
    by (simp add: socket_disconnect_def handleDisconnect_def removeParticipant_rooms_sound)
next
  case (Chat_message sid uuid now body)
  with inv show ?thesis by (simp add: handleChatMessage_rooms_sound)
next
  case (Meetings_changed db)
  with inv show ?thesis by simp
qed (use inv in \<open>simp_all add: media_handlers update_media_rooms_sound\<close>)

lemma socket_connect_members_live:
  assumes "members_live w"
  shows "members_live (socket_connect sid w)"
  unfolding members_live_def
proof (intro allI impI)
  fix rid room sid'
  assume "map_of (vcm_rooms (socket_connect sid w)) rid = Some room"
    "map_of (participants room) sid' \<noteq> None"
  then have "map_of (vcm_rooms w) rid = Some room" "map_of (participants room) sid' \<noteq> None"
    by simp_all
  with assms obtain gs where gs: "map_of (io_sockets w) sid' = Some gs" "rid \<in> set gs"
    unfolding members_live_def by blast
  then show "\<exists>gs. map_of (io_sockets (socket_connect sid w)) sid' = Some gs \<and> rid \<in> set gs"
    by (auto simp: map_of_socket_connect)
qed

lemma dispatch_members_live:
  assumes inv: "members_live w" and rs: "rooms_sound w"
    and conn: "\<And>sid. sender ev = Some sid \<Longrightarrow> connected w sid"
  shows "members_live (snd (dispatch ev w))"
proof (cases ev)
  case (Connection sid)
  with inv show ?thesis by (simp add: socket_connect_members_live)
next
  case (Join_room sid reply t_start t_join mid uid uname)
  with inv conn [of sid] show ?thesis
    by (simp add: on_join_room_state handleJoinRoom_members_live)
next
  case (Leave_room sid reply)
  with inv show ?thesis by (simp add: handleLeaveRoom_def removeParticipant_members_live)
next
  case (Disconnect sid reply)
  with inv rs show ?thesis
    by (simp add: socket_disconnect_def handleDisconnect_def disconnect_members_live)
next
  case (Chat_message sid uuid now body)
  with inv show ?thesis by (simp add: handleChatMessage_members_live)
next
  case (Meetings_changed db)
  with inv show ?thesis by simp
qed (use inv in \<open>simp_all add: media_handlers update_media_members_live\<close>)


lemma socket_event_io_sound: "io_sound w \<Longrightarrow> io_sound (snd (socket_event ev w))"
  by (simp add: socket_event_def dispatch_io_sound split: option.splits)

lemma socket_event_rooms_sound:
  "rooms_sound w \<Longrightarrow> fresh_join ev w \<Longrightarrow> rooms_sound (snd (socket_event ev w))"
  by (simp add: socket_event_def dispatch_rooms_sound split: option.splits)

lemma socket_event_members_live:
  assumes "members_live w" "rooms_sound w"
  shows "members_live (snd (socket_event ev w))"
proof (cases "\<exists>sid. sender ev = Some sid \<and> \<not> connected w sid")
  case True
  with assms show ?thesis by (auto simp: socket_event_def)
next
  case False
  then have "socket_event ev w = dispatch ev w"
    by (auto simp: socket_event_def split: option.splits)
  with assms False show ?thesis by (auto intro: dispatch_members_live)
qed

lemma initial_world_sound:
  "index_sound (initial_world db)" "rooms_sound (initial_world db)"
  "members_live (initial_world db)" "io_sound (initial_world db)"
  by (simp_all add: initial_world_def index_sound_def rooms_sound_def members_live_def
      io_sound_def)


lemma run_io_sound: "io_sound w \<Longrightarrow> io_sound (run evs w)"
  by (induction evs arbitrary: w) (simp_all add: socket_event_io_sound)


lemma run_members_live:
  "members_live w \<Longrightarrow> rooms_sound w \<Longrightarrow> no_rejoin evs w \<Longrightarrow> members_live (run evs w)"
  by (induction evs arbitrary: w)
     (simp_all add: socket_event_rooms_sound socket_event_members_live)


lemma removeParticipant_absent:
  "map_of (vcm_participants w) sid = None \<Longrightarrow> removeParticipant reply sid w = ([], w)"
  by (simp add: removeParticipant_unfold)


lemma removeParticipant_reply_irrelevant:
  "fst (removeParticipant (Rejected reason) sid w) = fst (removeParticipant Acknowledged sid w)"
  "vcm_rooms (snd (removeParticipant (Rejected reason) sid w)) =
   vcm_rooms (snd (removeParticipant Acknowledged sid w))"
  "vcm_participants (snd (removeParticipant (Rejected reason) sid w)) =
   vcm_participants (snd (removeParticipant Acknowledged sid w))"
  "io_sockets (snd (removeParticipant (Rejected reason) sid w)) =
   io_sockets (snd (removeParticipant Acknowledged sid w))"
  by (simp_all add: removeParticipant_rooms removeParticipant_index removeParticipant_sockets)
     (simp add: removeParticipant_unfold Let_def split: option.splits)

lemma removeParticipant_index_gone:
  "map_of (vcm_participants (snd (removeParticipant reply sid w))) sid = None"
  by (simp add: removeParticipant_index alist_maps)

lemma removeParticipant_last:
  assumes "map_of (vcm_participants w) sid = Some e"
    and "map_of (vcm_rooms w) (roomId e) = Some room"
    and "AList.delete sid (participants room) = []"
  shows "map_of (vcm_rooms (snd (removeParticipant reply sid w))) (roomId e) = None"
  using assms by (simp add: removeParticipant_rooms alist_maps)


lemma handleLeaveRoom_unregistered:
  "map_of (vcm_participants w) sid = None \<Longrightarrow> handleLeaveRoom reply sid w = ([], w)"
  by (simp add: handleLeaveRoom_def removeParticipant_absent)

lemma roomless_not_indexed:
  assumes "index_sound w"
    and "\<forall>rid room. map_of (vcm_rooms w) rid = Some room \<longrightarrow> map_of (participants room) sid = None"
  shows "map_of (vcm_participants w) sid = None"
proof (rule ccontr)
  assume "map_of (vcm_participants w) sid \<noteq> None"
  then obtain e where "map_of (vcm_participants w) sid = Some e" by auto
  with assms(1) obtain room p where "map_of (vcm_rooms w) (roomId e) = Some room"
    "map_of (participants room) sid = Some p"
    unfolding index_sound_def by blast
  with assms(2) show False by fastforce
qed


lemma socket_emit_only_self:
  "socket_emit w sid msg = (if connected w sid then [(sid, msg)] else [])"
  by (simp add: socket_emit_def)


lemma filter_eq_key:
  "distinct xs \<Longrightarrow> filter (\<lambda>x. x = g) xs = (if g \<in> set xs then [g] else [])"
  by (induction xs) auto

lemma group_of_socket_id:
  assumes io: "io_sound w" and plain: "g \<notin> range room_name"
  shows "group_members (io_sockets w) g = (if connected w g then [g] else [])"
proof -
  have own: "(g \<in> set (snd sg)) = (fst sg = g)" if "sg \<in> set (io_sockets w)" for sg
  proof -
    obtain s gs where sg: "sg = (s, gs)" by (cases sg)
    from io have d: "distinct (map fst (io_sockets w))" unfolding io_sound_def by blast
    with that sg have "map_of (io_sockets w) s = Some gs" by simp
    with io have "s \<in> set gs \<and> (\<forall>x \<in> set gs. x = s \<or> x \<in> range room_name)"
      unfolding io_sound_def by blast
    with plain sg show ?thesis by auto
  qed
  have "filter (\<lambda>sg. g \<in> set (snd sg)) (io_sockets w) = filter (\<lambda>sg. fst sg = g) (io_sockets w)"
    by (rule filter_cong) (simp_all add: own)
  then have "group_members (io_sockets w) g = filter (\<lambda>x. x = g) (map fst (io_sockets w))"
    by (simp add: group_members_def filter_map comp_def)
  also have "\<dots> = (if g \<in> set (map fst (io_sockets w)) then [g] else [])"
    using io by (intro filter_eq_key) (simp add: io_sound_def)
  also have "\<dots> = (if connected w g then [g] else [])"
    by (simp add: connected_def map_of_eq_None_iff)
  finally show ?thesis .
qed

lemma relay_to_socket_id:
  assumes "io_sound w" "target \<notin> range room_name"
  shows "socket_to_emit w sid target msg =
           (if connected w target \<and> target \<noteq> sid then [(target, msg)] else [])"
  using group_of_socket_id [OF assms] by (simp add: socket_to_emit_def)


lemma room_name_prefix: "g \<in> range room_name \<Longrightarrow> take 8 g = ''meeting_''"
  by (auto simp: room_name_def)

lemma all_rooms_update:
  "\<forall>kr \<in> set al. P (snd kr) \<Longrightarrow> P v \<Longrightarrow> \<forall>kr \<in> set (AList.update k v al). P (snd kr)"
  by (induction al) auto

lemma all_rooms_delete:
  "\<forall>kr \<in> set al. P (snd kr) \<Longrightarrow> \<forall>kr \<in> set (AList.delete k al). P (snd kr)"
  by (auto simp: AList.delete_eq)

lemma all_rooms_lookup:
  assumes "\<forall>kr \<in> set al. P (snd kr)" "map_of al k = Some v"
  shows "P v"
proof -
  from assms(2) have "(k, v) \<in> set al" by (rule map_of_SomeD)
  with assms(1) show ?thesis by fastforce
qed

lemma chat_bounded_alt:
  "chat_bounded w = (\<forall>kr \<in> set (vcm_rooms w). length (chatMessages (snd kr)) \<le> 100)"
  by (auto simp: chat_bounded_def)

lemma slice_last_length: "length (slice_last n xs) \<le> n"
  by (simp add: slice_last_def)

lemma removeParticipant_all_rooms:
  assumes all: "\<forall>kr \<in> set (vcm_rooms w). P (snd kr)"
    and keep: "\<And>room ps. P room \<Longrightarrow> ps \<noteq> [] \<Longrightarrow> P (room\<lparr>participants := ps\<rparr>)"
  shows "\<forall>kr \<in> set (vcm_rooms (snd (removeParticipant reply sid w))). P (snd kr)"
proof (cases "map_of (vcm_participants w) sid")
  case None
  with all show ?thesis by (simp add: removeParticipant_rooms)
next
  case e: (Some e)
  show ?thesis
  proof (cases "map_of (vcm_rooms w) (roomId e)")
    case None
    with e all show ?thesis by (simp add: removeParticipant_rooms)
  next
    case (Some room)
    with all have "P room" by (rule all_rooms_lookup)
    show ?thesis
    proof (cases "AList.delete sid (participants room) = []")
      case True
      with e Some show ?thesis
        using all_rooms_delete [OF all] by (simp add: removeParticipant_rooms)
    next
      case False
      with \<open>P room\<close> have "P (room\<lparr>participants := AList.delete sid (participants room)\<rparr>)"
        by (intro keep)
      with e Some False show ?thesis
        using all_rooms_update [OF all] by (simp add: removeParticipant_rooms)
    qed
  qed
qed

lemma removeParticipant_chat_bounded:
  "chat_bounded w \<Longrightarrow> chat_bounded (snd (removeParticipant reply sid w))"
  unfolding chat_bounded_alt by (rule removeParticipant_all_rooms) simp_all

lemma update_media_all_rooms:
  assumes all: "\<forall>kr \<in> set (vcm_rooms w). P (snd kr)"
    and keep: "\<And>room ps. P room \<Longrightarrow> ps \<noteq> [] \<Longrightarrow> P (room\<lparr>participants := ps\<rparr>)"
  shows "\<forall>kr \<in> set (vcm_rooms (snd (update_media sid f g notice w))). P (snd kr)"
proof (cases sid f g notice w rule: update_media_cases)
  case idle
  with all show ?thesis by simp
next
  case (changed e room p)
  from all changed(2) have "P room" by (rule all_rooms_lookup)
  then have "P (room\<lparr>participants := AList.update sid (f p) (participants room)\<rparr>)"
    by (intro keep) simp_all
  then show ?thesis
    unfolding changed(4) using all_rooms_update [OF all] by simp
qed

lemma register_participant_all_rooms:
  assumes all: "\<forall>kr \<in> set (vcm_rooms w). P (snd kr)" and "P room"
    and keep: "\<And>room ps. P room \<Longrightarrow> ps \<noteq> [] \<Longrightarrow> P (room\<lparr>participants := ps\<rparr>)"
  shows "\<forall>kr \<in> set (vcm_rooms (snd (register_participant t_join sid uid uname is_org rid room w))).
           P (snd kr)"
proof -
  have "P (room\<lparr>participants := AList.update sid
            \<lparr>socketId = sid, userId = uid, userName = uname, isOrganizer = is_org,
             joinedAt = t_join, audio = True, video = True, isScreenSharing = False\<rparr>
            (participants room)\<rparr>)"
    using assms(2) by (intro keep) simp_all
  then show ?thesis
    unfolding register_participant_rooms using all_rooms_update [OF all] by simp
qed

lemma handleChatMessage_chat_bounded:
  assumes "chat_bounded w"
  shows "chat_bounded (snd (handleChatMessage uuid now sid body w))"
proof (cases uuid now sid body w rule: handleChatMessage_cases)
  case idle
  with assms show ?thesis by simp
next
  case (posted e room kept)
  have "length kept \<le> 100"
    unfolding posted(4) by (simp add: slice_last_length)
  have "\<forall>kr \<in> set (AList.update (roomId e) (room\<lparr>chatMessages := kept\<rparr>) (vcm_rooms w)).
          length (chatMessages (snd kr)) \<le> 100"
    by (rule all_rooms_update)
       (use assms \<open>length kept \<le> 100\<close> in \<open>simp_all add: chat_bounded_alt\<close>)
  then show ?thesis
    unfolding posted(5) chat_bounded_alt by simp
qed

lemma handleJoinRoom_chat_bounded:
  assumes "chat_bounded w"
  shows "chat_bounded (snd (handleJoinRoom reply t_start t_join sid mid uid uname w))"
proof -
  let ?P = "\<lambda>r. length (chatMessages r) \<le> 100"
  from assms have all: "\<forall>kr \<in> set (vcm_rooms w). ?P (snd kr)" by (simp add: chat_bounded_alt)
  have fresh: "?P (fresh_room mid ttl t)" for ttl t by (simp add: fresh_room_def)
  have opened: "\<forall>kr \<in> set (AList.update (room_name mid) (fresh_room mid ttl t) (vcm_rooms w)).
                  ?P (snd kr)" for ttl t
    using all fresh by (rule all_rooms_update)
  show ?thesis
  proof (cases reply t_start t_join sid mid uid uname w rule: handleJoinRoom_cases)
    case (failed e)
    with assms show ?thesis by simp
  next
    case (stranded m reason)
    with opened show ?thesis by (simp add: chat_bounded_alt)
  next
    case (opened m is_org)
    show ?thesis
      unfolding opened(5) chat_bounded_alt snd_conv
      by (rule register_participant_all_rooms) (use \<open>\<And>ttl t. \<forall>kr \<in> set (AList.update (room_name mid) (fresh_room mid ttl t) (vcm_rooms w)). ?P (snd kr)\<close> fresh in simp_all)
  next
    case (existing m room is_org)
    from all existing(3) have "?P room" by (rule all_rooms_lookup)
    with all show ?thesis
      unfolding existing(4) chat_bounded_alt snd_conv
      by (intro register_participant_all_rooms) simp_all
  qed
qed

lemma update_media_chat_bounded:
  "chat_bounded w \<Longrightarrow> chat_bounded (snd (update_media sid f g notice w))"
  unfolding chat_bounded_alt by (rule update_media_all_rooms) simp_all

lemma chat_bounded_frame [simp]:
  "chat_bounded (socket_connect sid w) = chat_bounded w"
  "chat_bounded (socket_close sid w) = chat_bounded w"
  "chat_bounded (w\<lparr>meetings := db\<rparr>) = chat_bounded w"
  "chat_bounded (w\<lparr>users := us\<rparr>) = chat_bounded w"
  by (simp_all add: chat_bounded_def)

lemma dispatch_chat_bounded:
  assumes inv: "chat_bounded w"
  shows "chat_bounded (snd (dispatch ev w))"
proof (cases ev)
  case (Join_room sid reply t_start t_join mid uid uname)
  with inv show ?thesis by (simp add: on_join_room_state handleJoinRoom_chat_bounded)
next
  case (Leave_room sid reply)
  with inv show ?thesis by (simp add: handleLeaveRoom_def removeParticipant_chat_bounded)
next
  case (Disconnect sid reply)
  with inv show ?thesis
    by (simp add: socket_disconnect_def handleDisconnect_def removeParticipant_chat_bounded)
next
  case (Chat_message sid uuid now body)
  with inv show ?thesis by (simp add: handleChatMessage_chat_bounded)
qed (use inv in \<open>simp_all add: media_handlers update_media_chat_bounded\<close>)

lemma socket_event_chat_bounded: "chat_bounded w \<Longrightarrow> chat_bounded (snd (socket_event ev w))"
  by (simp add: socket_event_def dispatch_chat_bounded split: option.splits)

lemma run_chat_bounded: "chat_bounded w \<Longrightarrow> chat_bounded (run evs w)"
  by (induction evs arbitrary: w) (simp_all add: socket_event_chat_bounded)

lemma slice_last_append_one:
  "slice_last 100 (xs @ [x]) =
     (if length xs < 100 then xs @ [x] else drop (length xs - 99) xs @ [x])"
  by (auto simp: slice_last_def)

lemma handleChatMessage_log:
  assumes "map_of (vcm_participants w) sid = Some e"
    and "map_of (vcm_rooms w) (roomId e) = Some room" and "trim body \<noteq> []"
  shows "map_option chatMessages
           (map_of (vcm_rooms (snd (handleChatMessage uuid now sid body w))) (roomId e)) =
         Some (slice_last 100
                 (chatMessages room @
                  [\<lparr>cm_id = uuid, cm_userId = userId e, cm_userName = userName e,
                    cm_message = trim body, cm_timestamp = now,
                    cm_isOrganizer = isOrganizer e\<rparr>]))"
  using assms
  by (simp add: handleChatMessage_def Let_def alist_maps slice_last_def)

lemma update_media_effect:
  assumes "map_of (vcm_participants w) sid = Some e"
    and "map_of (vcm_rooms w) (roomId e) = Some room"
    and "map_of (participants room) sid = Some p"
  shows "update_media sid f g notice w =
           (socket_to_emit w sid (roomId e) (notice e),
            w\<lparr>vcm_rooms := AList.update (roomId e)
                   (room\<lparr>participants := AList.update sid (f p) (participants room)\<rparr>)
                   (vcm_rooms w),
              vcm_participants := AList.update sid (g e) (vcm_participants w)\<rparr>)"
  using assms by (simp add: update_media_def Let_def socket_to_emit_def)

lemma update_media_unregistered:
  "map_of (vcm_participants w) sid = None \<Longrightarrow> update_media sid f g notice w = ([], w)"
  by (simp add: update_media_def)

lemma in_group_members:
  assumes "map_of io sid = Some gs" "g \<in> set gs"
  shows "sid \<in> set (group_members io g)"
proof -
  from assms(1) have "(sid, gs) \<in> set io" by (rule map_of_SomeD)
  with assms(2) show ?thesis by (force simp: group_members_def)
qed

lemma broadcast_reaches_members:
  assumes live: "members_live w" and room: "map_of (vcm_rooms w) rid = Some room"
    and other: "map_of (participants room) sid' \<noteq> None" "sid' \<noteq> sid"
  shows "(sid', msg) \<in> set (socket_to_emit w sid rid msg)"
proof -
  from live room other(1) obtain gs where "map_of (io_sockets w) sid' = Some gs" "rid \<in> set gs"
    unfolding members_live_def by blast
  then have "sid' \<in> set (group_members (io_sockets w) rid)" by (rule in_group_members)
  with other(2) show ?thesis by (auto simp: socket_to_emit_def)
qed

lemma broadcast_skips_sender:
  "x \<in> set (socket_to_emit w sid rid msg) \<Longrightarrow> fst x \<noteq> sid \<and> snd x = msg"
  by (auto simp: socket_to_emit_def)

lemma stats_list_participant:
  assumes "map_of (vcm_rooms w) rid = Some room" "map_of (participants room) sid = Some p"
  shows "\<exists>rs \<in> set (stats_rooms (getRoomStats now w)).
           rs_roomId rs = rid \<and> participant_summary_of p \<in> set (rs_participants rs)"
proof -
  from assms(1) have "(rid, room) \<in> set (vcm_rooms w)" by (rule map_of_SomeD)
  then have "room_stats_of now (rid, room) \<in> set (stats_rooms (getRoomStats now w))"
    by (simp add: getRoomStats_def)
  moreover from assms(2) have "(sid, p) \<in> set (participants room)" by (rule map_of_SomeD)
  then have "participant_summary_of p \<in> set (rs_participants (room_stats_of now (rid, room)))"
    by (force simp: room_stats_of_def)
  ultimately show ?thesis by (force simp: room_stats_of_def)
qed

lemma update_media_result:
  assumes e: "map_of (vcm_participants w) sid = Some e"
    and r: "map_of (vcm_rooms w) (roomId e) = Some room"
    and p: "map_of (participants room) sid = Some p"
    and live: "members_live w"
  shows "map_of (vcm_rooms (snd (update_media sid f g notice w))) (roomId e) =
           Some (room\<lparr>participants := AList.update sid (f p) (participants room)\<rparr>) \<and>
         (\<forall>sid'. sid' \<noteq> sid \<longrightarrow>
            map_of (AList.update sid (f p) (participants room)) sid' =
            map_of (participants room) sid') \<and>
         (\<forall>rid. rid \<noteq> roomId e \<longrightarrow>
            map_of (vcm_rooms (snd (update_media sid f g notice w))) rid =
            map_of (vcm_rooms w) rid) \<and>
         map_of (vcm_participants (snd (update_media sid f g notice w))) sid = Some (g e) \<and>
         (\<forall>sid'. sid' \<noteq> sid \<longrightarrow>
            map_of (vcm_participants (snd (update_media sid f g notice w))) sid' =
            map_of (vcm_participants w) sid') \<and>
         io_sockets (snd (update_media sid f g notice w)) = io_sockets w \<and>
         meetings (snd (update_media sid f g notice w)) = meetings w \<and>
         (\<exists>rs \<in> set (stats_rooms (getRoomStats now (snd (update_media sid f g notice w)))).
            rs_roomId rs = roomId e \<and> participant_summary_of (f p) \<in> set (rs_participants rs)) \<and>
         (\<forall>sid'. sid' \<noteq> sid \<longrightarrow> map_of (participants room) sid' \<noteq> None \<longrightarrow>
            (sid', notice e) \<in> set (fst (update_media sid f g notice w))) \<and>
         (\<forall>x \<in> set (fst (update_media sid f g notice w)). fst x \<noteq> sid \<and> snd x = notice e)"
proof -
  note eff = update_media_effect [OF e r p, of f g notice]
  have room': "map_of (vcm_rooms (snd (update_media sid f g notice w))) (roomId e) =
           Some (room\<lparr>participants := AList.update sid (f p) (participants room)\<rparr>)"
    by (simp add: eff alist_maps)
  have "map_of (participants (room\<lparr>participants := AList.update sid (f p) (participants room)\<rparr>)) sid
          = Some (f p)"
    by (simp add: alist_maps)
  from stats_list_participant [OF room' this]
  have stats: "\<exists>rs \<in> set (stats_rooms (getRoomStats now (snd (update_media sid f g notice w)))).
            rs_roomId rs = roomId e \<and> participant_summary_of (f p) \<in> set (rs_participants rs)" .
  have reach: "(sid', notice e) \<in> set (fst (update_media sid f g notice w))"
    if "sid' \<noteq> sid" "map_of (participants room) sid' \<noteq> None" for sid'
    using broadcast_reaches_members [OF live r that(2) that(1)] by (simp add: eff)
  have skip: "fst x \<noteq> sid \<and> snd x = notice e"
    if "x \<in> set (fst (update_media sid f g notice w))" for x
    using that broadcast_skips_sender [of x w sid "roomId e" "notice e"] by (simp add: eff)
  show ?thesis
    using room' stats reach skip by (simp add: eff alist_maps)
qed
lemma handleJoinRoom_success:
  assumes "handleJoinRoom reply t_start t_join sid mid uid uname w = (Inr out, w')"
  obtains m room0 w0 is_org where
    "findById mid w = Inr (Some m)"
    "is_organizer w m uid = Inr is_org"
    "register_participant t_join sid uid uname is_org (room_name mid) room0 w0 =
       (out, w')"
    "io_sockets w0 = io_sockets w" "vcm_participants w0 = vcm_participants w"
    "map_of (vcm_rooms w0) (room_name mid) = Some room0"
    "map_of (vcm_rooms w) (room_name mid) = Some room0 \<and> w0 = w \<or>
     map_of (vcm_rooms w) (room_name mid) = None \<and> reply = Acknowledged \<and>
       room0 = fresh_room mid (title m) t_start \<and>
       w0 = w\<lparr>vcm_rooms := AList.update (room_name mid) (fresh_room mid (title m) t_start)
                             (vcm_rooms w),
              meetings := update_document (object_id mid) (\<lambda>d. d\<lparr>status := Ongoing\<rparr>) (meetings w)\<rparr>"
proof (cases reply t_start t_join sid mid uid uname w rule: handleJoinRoom_cases)
  case (failed e)
  with assms show ?thesis by simp
next
  case (stranded m reason)
  with assms show ?thesis by simp
next
  case (opened m is_org)
  let ?w0 = "w\<lparr>vcm_rooms := AList.update (room_name mid) (fresh_room mid (title m) t_start)
                             (vcm_rooms w),
              meetings := update_document (object_id mid) (\<lambda>d. d\<lparr>status := Ongoing\<rparr>) (meetings w)\<rparr>"
  from assms opened(5)
  have "register_participant t_join sid uid uname is_org (room_name mid)
          (fresh_room mid (title m) t_start) ?w0 = (out, w')"
    by (simp add: prod_eq_iff)
  with opened(1-4) show ?thesis
    by (intro that [of m is_org "fresh_room mid (title m) t_start" ?w0]) (simp_all add: alist_maps)
next
  case (existing m room is_org)
  from assms existing(4)
  have "register_participant t_join sid uid uname is_org (room_name mid) room w =
          (out, w')"
    by (simp add: prod_eq_iff)
  with existing(1-3) show ?thesis
    by (intro that [of m is_org room w]) simp_all
qed

lemma connected_socket_join [simp]: "connected (socket_join sid g w) s = connected w s"
  by (simp add: connected_def map_of_socket_join)

lemma register_participant_out:
  assumes "connected w sid"
  shows "fst (register_participant t_join sid uid uname is_org rid room w) =
           socket_to_emit (socket_join sid rid w) sid rid (UserJoined sid uid uname is_org) @
           [(sid, RoomJoined rid (meetingTitle room)
                    (map (\<lambda>kp. participant_view_of (snd kp))
                       (AList.update sid
                          \<lparr>socketId = sid, userId = uid, userName = uname, isOrganizer = is_org,
                           joinedAt = t_join, audio = True, video = True,
                           isScreenSharing = False\<rparr> (participants room)))
                    (slice_last 50 (chatMessages room)))]"
  using assms
  by (simp add: register_participant_def Let_def socket_emit_def socket_to_emit_def
      connected_def socket_join_def map_of_socket_join [unfolded socket_join_def, simplified])

lemma update_holds_entry: "(k, v) \<in> set (AList.update k v al)"
  by (induction al) auto

lemma slice_last_suffix: "\<exists>older. xs = older @ slice_last n xs"
  by (metis append_take_drop_id slice_last_def)
lemma serial_step:
  "snd (advance (Settle 0) (snd (advance (Settle 0) (snd (advance (Begin ev) (w, [])))))) =
     (snd (socket_event ev w), [])"
proof (cases "case sender ev of None \<Rightarrow> True | Some sid \<Rightarrow> connected w sid")
  case False
  then show ?thesis
    by (auto simp: socket_event_def socket_event_begin_def split: option.splits)
next
  case True
  then have b: "socket_event_begin ev w = dispatch_begin ev w"
    and d: "socket_event ev w = dispatch ev w"
    by (auto simp: socket_event_def socket_event_begin_def split: option.splits)
  show ?thesis
  proof (cases ev)
    case (Join_room sid reply t_start t_join mid uid uname)
    show ?thesis
      using b d
      by (cases t_start t_join sid mid uid uname w rule: join_begin_cases)
        (simp_all add: Join_room on_join_room_def handleJoinRoom_def report_def
          split: prod.splits sum.splits js_error.splits)
  next
    case (Leave_room sid reply)
    show ?thesis
      using b d
      by (simp add: Leave_room handleLeaveRoom_def removeParticipant_def suspended_teardown_def
          split: prod.splits option.splits)
  next
    case (Disconnect sid reply)
    show ?thesis
      using b d
      by (simp add: Disconnect socket_disconnect_def handleDisconnect_def removeParticipant_def
          suspended_teardown_def split: prod.splits option.splits)
  qed (use b d in \<open>simp_all add: case_prod_beta\<close>)
qed

lemma serial_schedule: "schedule (serial evs) (w, []) = (run evs w, [])"
proof (induction evs arbitrary: w)
  case Nil
  show ?case by simp
next
  case (Cons ev evs)
  have "schedule (serial (ev # evs)) (w, []) =
          schedule (serial evs)
            (snd (advance (Settle 0) (snd (advance (Settle 0) (snd (advance (Begin ev) (w, [])))))))"
    by simp
  also have "\<dots> = schedule (serial evs) (snd (socket_event ev w), [])"
    by (simp only: serial_step)
  also have "\<dots> = (run evs (snd (socket_event ev w)), [])" by (rule Cons.IH)
  finally show ?case by simp
qed
lemma leave_begin_sockets: "io_sockets (snd (snd (leave_begin sid w))) = io_sockets w"
  by (simp add: leave_begin_def Let_def split: option.splits)

lemma leave_finish_sockets: "io_sockets (leave_finish reply sid rid mid note w) = io_sockets w"
  by (simp add: leave_finish_def Let_def findByIdAndUpdate_def split: sum.splits db_reply.splits)

lemma join_begin_io_sound:
  assumes inv: "io_sound w"
  shows "io_sound (snd (join_begin t_start t_join sid mid uid uname w))"
proof (cases t_start t_join sid mid uid uname w rule: join_begin_cases)
  case (failed e)
  with inv show ?thesis by simp
next
  case (suspended m is_org)
  with inv show ?thesis by (simp add: io_sound_def)
next
  case (existing m room is_org)
  with inv show ?thesis by (simp add: register_participant_io_sound)
qed

lemma join_resume_io_sound:
  assumes inv: "io_sound w"
  shows "io_sound (snd (join_resume reply t_join sid mid uid uname is_org w))"
proof (cases reply t_join sid mid uid uname is_org w rule: join_resume_cases)
  case (write_failed e)
  with inv show ?thesis by simp
next
  case room_gone
  with inv show ?thesis by simp
next
  case (registered room)
  with inv show ?thesis by (simp add: register_participant_io_sound)
qed

lemma report_state [simp]: "snd (report sid result) = snd result"
  by (simp add: report_def split: prod.splits sum.splits js_error.splits)

lemma settle_io_sound:
  assumes inv: "io_sound w"
  shows "io_sound (snd (snd (settle k w)))"
proof (cases k)
  case (Finding reply t_start t_join sid mid uid uname)
  have "snd (snd (settle k w)) = snd (join_begin t_start t_join sid mid uid uname w)"
    unfolding Finding by (simp split: prod.splits sum.splits)
  with inv show ?thesis by (simp add: join_begin_io_sound)
next
  case (Opening reply t_join sid mid uid uname is_org)
  have "snd (snd (settle k w)) = snd (join_resume reply t_join sid mid uid uname is_org w)"
    unfolding Opening by (simp add: case_prod_beta)
  with inv show ?thesis by (simp add: join_resume_io_sound)
next
  case (Tearing reply sid rid mid memo)
  with inv show ?thesis by (simp add: io_sound_def leave_finish_sockets)
qed

lemma leave_begin_io_sound: "io_sound w \<Longrightarrow> io_sound (snd (snd (leave_begin sid w)))"
  by (simp add: io_sound_def leave_begin_sockets)

lemma socket_event_begin_io_sound:
  assumes inv: "io_sound w"
  shows "io_sound (snd (snd (socket_event_begin ev w)))"
proof (cases "case sender ev of None \<Rightarrow> True | Some sid \<Rightarrow> connected w sid")
  case False
  with inv show ?thesis by (auto simp: socket_event_begin_def split: option.splits)
next
  case True
  then have b: "socket_event_begin ev w = dispatch_begin ev w"
    by (auto simp: socket_event_begin_def split: option.splits)
  show ?thesis
  proof (cases ev)
    case (Join_room sid reply t_start t_join mid uid uname)
    with inv b show ?thesis by simp
  next
    case (Leave_room sid reply)
    with b leave_begin_io_sound [OF inv, of sid] show ?thesis by (simp add: case_prod_beta)
  next
    case (Disconnect sid reply)
    have "io_sound (socket_close sid w)" using inv by (rule socket_close_io_sound)
    from leave_begin_io_sound [OF this, of sid] b Disconnect show ?thesis
      by (simp add: case_prod_beta)
  qed (use b dispatch_io_sound [OF inv, of ev] in \<open>simp_all add: case_prod_beta\<close>)
qed

lemma advance_io_sound:
  assumes inv: "io_sound (fst s)"
  shows "io_sound (fst (snd (advance a s)))"
proof (cases s)
  case (Pair w ks)
  show ?thesis
  proof (cases a)
    case (Begin ev)
    with Pair inv socket_event_begin_io_sound [of w ev] show ?thesis
      by (simp add: case_prod_beta)
  next
    case (Settle i)
    with Pair inv settle_io_sound [of w "ks ! i"] show ?thesis
      by (simp add: case_prod_beta)
  qed
qed

lemma schedule_io_sound: "io_sound (fst s) \<Longrightarrow> io_sound (fst (schedule acts s))"
  by (induction acts arbitrary: s) (simp_all add: advance_io_sound)








lemma group_members_iff:
  assumes "distinct (map fst io)"
  shows "(t \<in> set (group_members io g)) = (\<exists>gs. map_of io t = Some gs \<and> g \<in> set gs)"
proof
  assume "t \<in> set (group_members io g)"
  then obtain gs where "(t, gs) \<in> set io" "g \<in> set gs"
    by (auto simp: group_members_def)
  with assms show "\<exists>gs. map_of io t = Some gs \<and> g \<in> set gs" by auto
next
  assume "\<exists>gs. map_of io t = Some gs \<and> g \<in> set gs"
  then obtain gs where "map_of io t = Some gs" "g \<in> set gs" by blast
  then show "t \<in> set (group_members io g)" by (rule in_group_members)
qed

lemma group_members_distinct: "distinct (map fst io) \<Longrightarrow> distinct (group_members io g)"
  by (simp add: group_members_def distinct_map_filter)

lemma socket_to_emit_recipients:
  assumes "io_sound w"
  shows "fst ` set (socket_to_emit w sid g msg) =
           {t. t \<noteq> sid \<and> (\<exists>gs. map_of (io_sockets w) t = Some gs \<and> g \<in> set gs)}"
    and "distinct (map fst (socket_to_emit w sid g msg))"
    and "snd ` set (socket_to_emit w sid g msg) \<subseteq> {msg}"
proof -
  from assms have d: "distinct (map fst (io_sockets w))" by (simp add: io_sound_def)
  have "fst ` set (socket_to_emit w sid g msg) =
          {t \<in> set (group_members (io_sockets w) g). t \<noteq> sid}"
    by (auto simp: socket_to_emit_def image_iff)
  also have "\<dots> = {t. t \<noteq> sid \<and> (\<exists>gs. map_of (io_sockets w) t = Some gs \<and> g \<in> set gs)}"
    using group_members_iff [OF d] by auto
  finally show "fst ` set (socket_to_emit w sid g msg) =
           {t. t \<noteq> sid \<and> (\<exists>gs. map_of (io_sockets w) t = Some gs \<and> g \<in> set gs)}" .
  have "map fst (socket_to_emit w sid g msg) =
          filter (\<lambda>t. t \<noteq> sid) (group_members (io_sockets w) g)"
    by (simp add: socket_to_emit_def comp_def)
  with group_members_distinct [OF d, of g]
  show "distinct (map fst (socket_to_emit w sid g msg))" by simp
  show "snd ` set (socket_to_emit w sid g msg) \<subseteq> {msg}"
    by (auto simp: socket_to_emit_def)
qed

lemma schedule_initial_io_sound: "io_sound (fst (schedule acts (initial_world db, [])))"
  by (rule schedule_io_sound) (simp add: initial_world_sound)
lemma socket_to_emit_delivered_once:
  assumes "io_sound w"
  shows "delivered_once (socket_to_emit w sid g msg) msg {t. t \<noteq> sid \<and> in_group w t g}"
proof -
  from assms have d: "distinct (map fst (io_sockets w))" by (simp add: io_sound_def)
  have m: "(t \<in> set (group_members (io_sockets w) g)) = in_group w t g" for t
    unfolding group_members_iff [OF d] by (simp add: in_group_def split: option.splits)
  have "set (socket_to_emit w sid g msg) = (\<lambda>t. (t, msg)) ` {t. t \<noteq> sid \<and> in_group w t g}"
    using m by (auto simp: socket_to_emit_def)
  moreover have "distinct (socket_to_emit w sid g msg)"
    using group_members_distinct [OF d, of g]
    by (simp add: socket_to_emit_def distinct_map inj_on_def)
  ultimately show ?thesis by (simp add: delivered_once_def)
qed

section \<open>The claims\<close>




text \<open>
  C8. When the write to the Meeting record issued during teardown is rejected, the
  handler's deliveries and the coordinator's in-memory state (rooms, reverse index) and
  the sockets are exactly those of the run in which the write succeeds: the leaving
  socket's reverse-index entry is gone, and when it was the last participant of its room
  the room is gone from the registry.
\<close>

theorem teardown_write_failure_keeps_cleanup:
  "fst (removeParticipant (Rejected reason) sid w) = fst (removeParticipant Acknowledged sid w) \<and>
   vcm_rooms (snd (removeParticipant (Rejected reason) sid w)) =
     vcm_rooms (snd (removeParticipant Acknowledged sid w)) \<and>
   vcm_participants (snd (removeParticipant (Rejected reason) sid w)) =
     vcm_participants (snd (removeParticipant Acknowledged sid w)) \<and>
   io_sockets (snd (removeParticipant (Rejected reason) sid w)) =
     io_sockets (snd (removeParticipant Acknowledged sid w)) \<and>
   map_of (vcm_participants (snd (removeParticipant (Rejected reason) sid w))) sid = None \<and>
   (map_of (vcm_participants w) sid = Some e \<longrightarrow>
    map_of (vcm_rooms w) (roomId e) = Some room \<longrightarrow>
    AList.delete sid (participants room) = [] \<longrightarrow>
      map_of (vcm_rooms (snd (removeParticipant (Rejected reason) sid w))) (roomId e) = None \<and>
      meetings (snd (removeParticipant (Rejected reason) sid w)) = meetings w)"
  using removeParticipant_reply_irrelevant [of reason sid w]
    removeParticipant_index_gone [of "Rejected reason" sid w]
    removeParticipant_last [of w sid e room "Rejected reason"]
  by (simp add: removeParticipant_unfold findByIdAndUpdate_def Let_def)

theorem teardown_write_failure_keeps_cleanup_witness:
  "map_of (vcm_participants solo_call) ''a'' =
     Some \<lparr>socketId = ''a'', userId = ''65a1b2c3d4e5f60718293a01'', userName = ''Ann'', isOrganizer = True,
           joinedAt = 2, audio = True, video = True, isScreenSharing = False,
           roomId = ''meeting_65a1b2c3d4e5f60718293a4b''\<rparr> \<and>
   map_option participants (map_of (vcm_rooms solo_call) ''meeting_65a1b2c3d4e5f60718293a4b'') =
     Some [(''a'', \<lparr>socketId = ''a'', userId = ''65a1b2c3d4e5f60718293a01'', userName = ''Ann'', isOrganizer = True,
           joinedAt = 2, audio = True, video = True, isScreenSharing = False\<rparr>)] \<and>
   map_of (vcm_rooms (snd (removeParticipant (Rejected ''write failed'') ''a'' solo_call)))
     ''meeting_65a1b2c3d4e5f60718293a4b'' = None \<and>
   vcm_rooms (snd (removeParticipant (Rejected ''write failed'') ''a'' solo_call)) =
     vcm_rooms (snd (removeParticipant Acknowledged ''a'' solo_call)) \<and>
   meetings (snd (removeParticipant (Rejected ''write failed'') ''a'' solo_call)) =
     meetings solo_call"
proof -
  define E where "E = \<lparr>socketId = ''a'', userId = ''65a1b2c3d4e5f60718293a01'', userName = ''Ann'', isOrganizer = True,
           joinedAt = 2, audio = True, video = True, isScreenSharing = False,
           roomId = ''meeting_65a1b2c3d4e5f60718293a4b''\<rparr>"
  define R where "R = \<lparr>participants = [(''a'', \<lparr>socketId = ''a'', userId = ''65a1b2c3d4e5f60718293a01'', userName = ''Ann'',
              isOrganizer = True, joinedAt = 2, audio = True, video = True,
              isScreenSharing = False\<rparr>)],
           meetingId = ''65a1b2c3d4e5f60718293a4b'', meetingTitle = ''Pitch'', startTime = 1, isRecording = False,
           chatMessages = [\<lparr>cm_id = ''c1'', cm_userId = ''65a1b2c3d4e5f60718293a01'', cm_userName = ''Ann'',
              cm_message = ''anyone?'', cm_timestamp = 3, cm_isOrganizer = True\<rparr>]\<rparr>"
  have e: "map_of (vcm_participants solo_call) ''a'' = Some E"
    unfolding E_def by code_simp
  have r: "map_of (vcm_rooms solo_call) ''meeting_65a1b2c3d4e5f60718293a4b'' = Some R"
    unfolding R_def by code_simp
  have rr: "map_of (vcm_rooms solo_call) (roomId E) = Some R"
    using r by (simp add: E_def)
  have dd: "AList.delete ''a'' (participants R) = []"
    by (simp add: R_def)
  note t = teardown_write_failure_keeps_cleanup [of "''write failed''" "''a''" solo_call E R]
  from t e rr dd
  have "map_of (vcm_rooms (snd (removeParticipant (Rejected ''write failed'') ''a'' solo_call)))
          (roomId E) = None \<and>
        meetings (snd (removeParticipant (Rejected ''write failed'') ''a'' solo_call)) =
          meetings solo_call"
    by blast
  then have g: "map_of (vcm_rooms (snd (removeParticipant (Rejected ''write failed'') ''a'' solo_call)))
          ''meeting_65a1b2c3d4e5f60718293a4b'' = None"
    and m: "meetings (snd (removeParticipant (Rejected ''write failed'') ''a'' solo_call)) =
          meetings solo_call"
    by (simp_all add: E_def)
  from t have b: "vcm_rooms (snd (removeParticipant (Rejected ''write failed'') ''a'' solo_call)) =
     vcm_rooms (snd (removeParticipant Acknowledged ''a'' solo_call))"
    by blast
  have p: "map_option participants (map_of (vcm_rooms solo_call) ''meeting_65a1b2c3d4e5f60718293a4b'') =
     Some [(''a'', \<lparr>socketId = ''a'', userId = ''65a1b2c3d4e5f60718293a01'', userName = ''Ann'', isOrganizer = True,
           joinedAt = 2, audio = True, video = True, isScreenSharing = False\<rparr>)]"
    using r by (simp add: R_def)
  from e [unfolded E_def] p g b m show ?thesis by (intro conjI)
qed


text \<open>
  C4. In every state reached by socket events, every room's chat log has at most 100
  entries. An accepted chat message (sender registered, text not blank, room present)
  leaves the log as the last 100 entries of the old log followed by the new message: the
  new message is the last entry, a log below capacity just grows, and a log of exactly
  100 entries loses its first (oldest) entry and nothing else.
\<close>

theorem chat_log_capped_fifo:
  "chat_bounded (run evs (initial_world db)) \<and>
   (map_of (vcm_participants w) sid = Some e \<longrightarrow>
    map_of (vcm_rooms w) (roomId e) = Some room \<longrightarrow> trim body \<noteq> [] \<longrightarrow>
    cm = \<lparr>cm_id = uuid, cm_userId = userId e, cm_userName = userName e,
          cm_message = trim body, cm_timestamp = now, cm_isOrganizer = isOrganizer e\<rparr> \<longrightarrow>
      map_option chatMessages
        (map_of (vcm_rooms (snd (handleChatMessage uuid now sid body w))) (roomId e)) =
        Some (slice_last 100 (chatMessages room @ [cm])) \<and>
      length (slice_last 100 (chatMessages room @ [cm])) \<le> 100 \<and>
      last (slice_last 100 (chatMessages room @ [cm])) = cm \<and>
      (length (chatMessages room) < 100 \<longrightarrow>
         slice_last 100 (chatMessages room @ [cm]) = chatMessages room @ [cm]) \<and>
      (length (chatMessages room) = 100 \<longrightarrow>
         slice_last 100 (chatMessages room @ [cm]) = tl (chatMessages room) @ [cm]))"
proof (intro conjI impI)
  show "chat_bounded (run evs (initial_world db))"
    by (rule run_chat_bounded) (simp add: chat_bounded_def initial_world_def)
next
  assume a: "map_of (vcm_participants w) sid = Some e"
    "map_of (vcm_rooms w) (roomId e) = Some room" "trim body \<noteq> []"
    and cm: "cm = \<lparr>cm_id = uuid, cm_userId = userId e, cm_userName = userName e,
          cm_message = trim body, cm_timestamp = now, cm_isOrganizer = isOrganizer e\<rparr>"
  show "map_option chatMessages
        (map_of (vcm_rooms (snd (handleChatMessage uuid now sid body w))) (roomId e)) =
        Some (slice_last 100 (chatMessages room @ [cm]))"
    unfolding cm using a by (rule handleChatMessage_log)
  show "length (slice_last 100 (chatMessages room @ [cm])) \<le> 100"
    by (rule slice_last_length)
  show "last (slice_last 100 (chatMessages room @ [cm])) = cm"
    by (simp add: slice_last_append_one)
  show "slice_last 100 (chatMessages room @ [cm]) = chatMessages room @ [cm]"
    if "length (chatMessages room) < 100"
    using that by (simp add: slice_last_append_one)
  show "slice_last 100 (chatMessages room @ [cm]) = tl (chatMessages room) @ [cm]"
    if "length (chatMessages room) = 100"
    using that by (simp add: slice_last_append_one drop_Suc)
qed
theorem chat_log_capped_fifo_witness:
  "map_option roomId (map_of (vcm_participants full_log_call) ''a'') = Some ''meeting_65a1b2c3d4e5f60718293a4b'' \<and>
   map_option chatMessages (map_of (vcm_rooms full_log_call) ''meeting_65a1b2c3d4e5f60718293a4b'') =
     Some (map archived_message [0..<100]) \<and>
   length (map archived_message [0..<100]) = 100 \<and>
   trim '' hello '' = ''hello'' \<and>
   map_option chatMessages
     (map_of (vcm_rooms (snd (handleChatMessage ''c100'' 7 ''a'' '' hello '' full_log_call)))
        ''meeting_65a1b2c3d4e5f60718293a4b'') =
     Some (tl (map archived_message [0..<100]) @
           [\<lparr>cm_id = ''c100'', cm_userId = ''65a1b2c3d4e5f60718293a01'', cm_userName = ''Ann'',
             cm_message = ''hello'', cm_timestamp = 7, cm_isOrganizer = True\<rparr>]) \<and>
   chat_bounded
     (run [Users_changed demo_users, Connection ''a'', Join_room ''a'' Acknowledged 1 2 ''65a1b2c3d4e5f60718293a4b'' ''65a1b2c3d4e5f60718293a01'' ''Ann'',
           Chat_message ''a'' ''c1'' 3 ''anyone?'']
        (initial_world [(''65a1b2c3d4e5f60718293a4b'', demo_meeting)]))"
proof -
  define E where "E = \<lparr>socketId = ''a'', userId = ''65a1b2c3d4e5f60718293a01'', userName = ''Ann'', isOrganizer = True,
                 joinedAt = 2, audio = True, video = True, isScreenSharing = False,
                 roomId = ''meeting_65a1b2c3d4e5f60718293a4b''\<rparr>"
  define R where "R = \<lparr>participants =
             [(''a'', \<lparr>socketId = ''a'', userId = ''65a1b2c3d4e5f60718293a01'', userName = ''Ann'', isOrganizer = True,
                      joinedAt = 2, audio = True, video = True, isScreenSharing = False\<rparr>)],
           meetingId = ''65a1b2c3d4e5f60718293a4b'', meetingTitle = ''Pitch'', startTime = 1, isRecording = False,
           chatMessages = map archived_message [0..<100]\<rparr>"
  define CM where "CM = \<lparr>cm_id = ''c100'', cm_userId = ''65a1b2c3d4e5f60718293a01'', cm_userName = ''Ann'',
             cm_message = ''hello'', cm_timestamp = 7, cm_isOrganizer = True\<rparr>"
  have e: "map_of (vcm_participants full_log_call) ''a'' = Some E"
    by (simp add: full_log_call_def E_def)
  have r: "map_of (vcm_rooms full_log_call) (roomId E) = Some R"
    by (simp add: full_log_call_def E_def R_def)
  have t: "trim '' hello '' = ''hello''"
    by code_simp
  then have t': "trim '' hello '' \<noteq> []" by simp
  have len: "length (chatMessages R) = 100" by (simp add: R_def)
  have cm: "CM = \<lparr>cm_id = ''c100'', cm_userId = userId E, cm_userName = userName E,
          cm_message = trim '' hello '', cm_timestamp = 7, cm_isOrganizer = isOrganizer E\<rparr>"
    by (simp add: CM_def E_def t)
  note th = chat_log_capped_fifo
    [of "[Users_changed demo_users, Connection ''a'', Join_room ''a'' Acknowledged 1 2 ''65a1b2c3d4e5f60718293a4b'' ''65a1b2c3d4e5f60718293a01'' ''Ann'',
           Chat_message ''a'' ''c1'' 3 ''anyone?'']" "[(''65a1b2c3d4e5f60718293a4b'', demo_meeting)]"
        full_log_call "''a''" E R "'' hello ''" CM "''c100''" 7]
  from th have b: "chat_bounded
     (run [Users_changed demo_users, Connection ''a'', Join_room ''a'' Acknowledged 1 2 ''65a1b2c3d4e5f60718293a4b'' ''65a1b2c3d4e5f60718293a01'' ''Ann'',
           Chat_message ''a'' ''c1'' 3 ''anyone?'']
        (initial_world [(''65a1b2c3d4e5f60718293a4b'', demo_meeting)]))" by blast
  from th e r t' cm len
  have "map_option chatMessages
     (map_of (vcm_rooms (snd (handleChatMessage ''c100'' 7 ''a'' '' hello '' full_log_call)))
        (roomId E)) = Some (slice_last 100 (chatMessages R @ [CM]))"
    and "slice_last 100 (chatMessages R @ [CM]) = tl (chatMessages R) @ [CM]"
    by blast+
  then have c: "map_option chatMessages
     (map_of (vcm_rooms (snd (handleChatMessage ''c100'' 7 ''a'' '' hello '' full_log_call)))
        ''meeting_65a1b2c3d4e5f60718293a4b'') = Some (tl (map archived_message [0..<100]) @ [CM])"
    by (simp add: E_def R_def)
  have e': "map_option roomId (map_of (vcm_participants full_log_call) ''a'') = Some ''meeting_65a1b2c3d4e5f60718293a4b''"
    using e by (simp add: E_def)
  have r': "map_option chatMessages (map_of (vcm_rooms full_log_call) ''meeting_65a1b2c3d4e5f60718293a4b'') =
     Some (map archived_message [0..<100])"
    using r by (simp add: E_def R_def)
  have l': "length (map archived_message [0..<100]) = 100" by simp
  from e' r' l' t c [unfolded CM_def] b show ?thesis by (intro conjI)
qed





text \<open>
  C3 as stated fails in two ways, both at \<open>socket.to(targetSocketId)\<close>. The target is a
  group name, and a meeting's room id is one: a relay whose target is the room id of the
  call, which is no connected socket, reaches the other sockets of that room. And the
  sender is always excluded: a relay whose target is the sender's own, connected, id
  reaches nobody.
\<close>

theorem relay_target_counterexample:
  "\<not> connected duo_call ''meeting_65a1b2c3d4e5f60718293a4b'' \<and>
   handleOffer ''a'' ''meeting_65a1b2c3d4e5f60718293a4b'' ''sdp'' duo_call =
     ([(''b'', Offer ''a'' ''sdp'')], duo_call) \<and>
   connected duo_call ''a'' \<and>
   handleOffer ''a'' ''a'' ''sdp'' duo_call = ([], duo_call)"
  by code_simp

text \<open>
  C3, amended. A relay (offer, answer or ice-candidate) never changes the state, whatever
  its target, and has no failing branch. In every state the coordinator reaches, with
  handlers interleaved in any way, \<open>socket.to(target)\<close> addresses the broadcast group named
  \<open>target\<close> and excludes the sender: the payload, tagged with the sender's socket id, is
  delivered once to each connected socket of that group other than the sender, and to no
  other. So for a target that is not a room name: if it is not connected, or is the
  sender itself, nothing is delivered; if it is connected and is not the sender, the
  payload is delivered to that socket and to no other. And a relay whose target is a room
  name reaches every other socket of that room's group.
\<close>

theorem relay_delivers_to_the_connected_target_only:
  "snd (handleOffer sid target payload w) = w \<and>
   snd (handleAnswer sid target payload w) = w \<and>
   snd (handleIceCandidate sid target payload w) = w \<and>
   (w = fst (schedule acts (initial_world db, [])) \<longrightarrow>
      delivered_once (fst (handleOffer sid target payload w)) (Offer sid payload)
        {t. t \<noteq> sid \<and> in_group w t target} \<and>
      delivered_once (fst (handleAnswer sid target payload w)) (Answer sid payload)
        {t. t \<noteq> sid \<and> in_group w t target} \<and>
      delivered_once (fst (handleIceCandidate sid target payload w)) (IceCandidate sid payload)
        {t. t \<noteq> sid \<and> in_group w t target} \<and>
      (target \<notin> range room_name \<longrightarrow>
         fst (handleOffer sid target payload w) =
           (if connected w target \<and> target \<noteq> sid then [(target, Offer sid payload)] else []) \<and>
         fst (handleAnswer sid target payload w) =
           (if connected w target \<and> target \<noteq> sid then [(target, Answer sid payload)] else []) \<and>
         fst (handleIceCandidate sid target payload w) =
           (if connected w target \<and> target \<noteq> sid
            then [(target, IceCandidate sid payload)] else [])))"
proof (intro conjI impI)
  assume w: "w = fst (schedule acts (initial_world db, []))"
  have io: "io_sound w"
    unfolding w by (rule schedule_initial_io_sound)
  show "delivered_once (fst (handleOffer sid target payload w)) (Offer sid payload)
        {t. t \<noteq> sid \<and> in_group w t target}"
    using socket_to_emit_delivered_once [OF io] by (simp add: handleOffer_def)
  show "delivered_once (fst (handleAnswer sid target payload w)) (Answer sid payload)
        {t. t \<noteq> sid \<and> in_group w t target}"
    using socket_to_emit_delivered_once [OF io] by (simp add: handleAnswer_def)
  show "delivered_once (fst (handleIceCandidate sid target payload w))
        (IceCandidate sid payload) {t. t \<noteq> sid \<and> in_group w t target}"
    using socket_to_emit_delivered_once [OF io] by (simp add: handleIceCandidate_def)
  assume plain: "target \<notin> range room_name"
  show "fst (handleOffer sid target payload w) =
           (if connected w target \<and> target \<noteq> sid then [(target, Offer sid payload)] else [])"
    using relay_to_socket_id [OF io plain] by (simp add: handleOffer_def)
  show "fst (handleAnswer sid target payload w) =
           (if connected w target \<and> target \<noteq> sid then [(target, Answer sid payload)] else [])"
    using relay_to_socket_id [OF io plain] by (simp add: handleAnswer_def)
  show "fst (handleIceCandidate sid target payload w) =
           (if connected w target \<and> target \<noteq> sid
            then [(target, IceCandidate sid payload)] else [])"
    using relay_to_socket_id [OF io plain] by (simp add: handleIceCandidate_def)
qed simp_all

theorem relay_delivers_to_the_connected_target_only_witness:
  "duo_call =
     fst (schedule
            (serial
               [Users_changed demo_users, Connection ''a'',
                Join_room ''a'' Acknowledged 1 2 ''65a1b2c3d4e5f60718293a4b'' ''65a1b2c3d4e5f60718293a01'' ''Ann'',
                Connection ''b'',
                Join_room ''b'' Acknowledged 3 4 ''65a1b2c3d4e5f60718293a4b'' ''65a1b2c3d4e5f60718293a02'' ''Bob'',
                Connection ''c''])
            (initial_world [(''65a1b2c3d4e5f60718293a4b'', demo_meeting)], [])) \<and>
   ''b'' \<notin> range room_name \<and> ''z'' \<notin> range room_name \<and> ''a'' \<notin> range room_name \<and>
   connected duo_call ''b'' \<and> \<not> connected duo_call ''z'' \<and> connected duo_call ''a'' \<and>
   handleOffer ''a'' ''b'' ''sdp'' duo_call = ([(''b'', Offer ''a'' ''sdp'')], duo_call) \<and>
   handleIceCandidate ''a'' ''z'' ''cand'' duo_call = ([], duo_call) \<and>
   handleAnswer ''a'' ''a'' ''sdp'' duo_call = ([], duo_call) \<and>
   delivered_once (fst (handleOffer ''a'' ''meeting_65a1b2c3d4e5f60718293a4b'' ''sdp'' duo_call))
     (Offer ''a'' ''sdp'') {t. t \<noteq> ''a'' \<and> in_group duo_call t ''meeting_65a1b2c3d4e5f60718293a4b''} \<and>
   in_group duo_call ''b'' ''meeting_65a1b2c3d4e5f60718293a4b''"
proof -
  have reach: "duo_call =
     fst (schedule
            (serial
               [Users_changed demo_users, Connection ''a'',
                Join_room ''a'' Acknowledged 1 2 ''65a1b2c3d4e5f60718293a4b'' ''65a1b2c3d4e5f60718293a01'' ''Ann'',
                Connection ''b'',
                Join_room ''b'' Acknowledged 3 4 ''65a1b2c3d4e5f60718293a4b'' ''65a1b2c3d4e5f60718293a02'' ''Bob'',
                Connection ''c''])
            (initial_world [(''65a1b2c3d4e5f60718293a4b'', demo_meeting)], []))"
    by (simp only: serial_schedule duo_call_def fst_conv)
  have nb: "''b'' \<notin> range room_name"
    using room_name_prefix [of "''b''"] by auto
  have nz: "''z'' \<notin> range room_name"
    using room_name_prefix [of "''z''"] by auto
  have na: "''a'' \<notin> range room_name"
    using room_name_prefix [of "''a''"] by auto
  have cb: "connected duo_call ''b''" and cz: "\<not> connected duo_call ''z''"
    and ca: "connected duo_call ''a''"
    by code_simp+
  have g: "in_group duo_call ''b'' ''meeting_65a1b2c3d4e5f60718293a4b''" by code_simp
  note tb = relay_delivers_to_the_connected_target_only
    [of "''a''" "''b''" "''sdp''" duo_call]
  note tz = relay_delivers_to_the_connected_target_only
    [of "''a''" "''z''" "''cand''" duo_call]
  note ta = relay_delivers_to_the_connected_target_only
    [of "''a''" "''a''" "''sdp''" duo_call]
  note tr = relay_delivers_to_the_connected_target_only
    [of "''a''" "''meeting_65a1b2c3d4e5f60718293a4b''" "''sdp''" duo_call]
  from tb have sb: "snd (handleOffer ''a'' ''b'' ''sdp'' duo_call) = duo_call"
    by (rule conjunct1)
  from tz [THEN conjunct2, THEN conjunct2, THEN conjunct1]
  have sz: "snd (handleIceCandidate ''a'' ''z'' ''cand'' duo_call) = duo_call" .
  from ta [THEN conjunct2, THEN conjunct1]
  have sa: "snd (handleAnswer ''a'' ''a'' ''sdp'' duo_call) = duo_call" .
  from tb [THEN conjunct2, THEN conjunct2, THEN conjunct2, rule_format, OF reach,
      THEN conjunct2, THEN conjunct2, THEN conjunct2, rule_format, OF nb]
  have "fst (handleOffer ''a'' ''b'' ''sdp'' duo_call) = [(''b'', Offer ''a'' ''sdp'')]"
    using cb by simp
  with sb have b: "handleOffer ''a'' ''b'' ''sdp'' duo_call =
      ([(''b'', Offer ''a'' ''sdp'')], duo_call)"
    by (simp add: prod_eq_iff)
  from tz [THEN conjunct2, THEN conjunct2, THEN conjunct2, rule_format, OF reach,
      THEN conjunct2, THEN conjunct2, THEN conjunct2, rule_format, OF nz]
  have "fst (handleIceCandidate ''a'' ''z'' ''cand'' duo_call) = []"
    using cz by simp
  with sz have z: "handleIceCandidate ''a'' ''z'' ''cand'' duo_call = ([], duo_call)"
    by (simp add: prod_eq_iff)
  from ta [THEN conjunct2, THEN conjunct2, THEN conjunct2, rule_format, OF reach,
      THEN conjunct2, THEN conjunct2, THEN conjunct2, rule_format, OF na]
  have "fst (handleAnswer ''a'' ''a'' ''sdp'' duo_call) = []"
    by simp
  with sa have a: "handleAnswer ''a'' ''a'' ''sdp'' duo_call = ([], duo_call)"
    by (simp add: prod_eq_iff)
  from tr [THEN conjunct2, THEN conjunct2, THEN conjunct2, rule_format, OF reach]
  have r: "delivered_once (fst (handleOffer ''a'' ''meeting_65a1b2c3d4e5f60718293a4b'' ''sdp'' duo_call))
     (Offer ''a'' ''sdp'') {t. t \<noteq> ''a'' \<and> in_group duo_call t ''meeting_65a1b2c3d4e5f60718293a4b''}"
    by (rule conjunct1)
  from reach nb nz na cb cz ca b z a r g show ?thesis by (intro conjI)
qed


end
